theory Spec2Isabelle
  imports Main "HOL-Library.AList"
begin

section \<open>The token cache of ModernWMS\_PY (app/cache.py)\<close>

text \<open>
  Python values are modelled as follows.
  \<^item> A \<^verbatim>\<open>dict\<close> is an association list with distinct keys, in insertion order:
    \<^verbatim>\<open>d.get(k)\<close> is \<open>map_of d k\<close>, \<^verbatim>\<open>d[k] = v\<close> is \<open>AList.update k v d\<close> (an existing key
    keeps its place, a new one goes to the end), \<^verbatim>\<open>del d[k]\<close> is \<open>AList.delete k d\<close>
    after the test that raises \<^verbatim>\<open>KeyError\<close> on a missing key.
  \<^item> A \<^verbatim>\<open>datetime\<close> in UTC is an \<open>int\<close> (microseconds since the epoch), a
    \<^verbatim>\<open>timedelta\<close> is an \<open>int\<close> of microseconds. Each reading of
    \<^verbatim>\<open>datetime.now(timezone.utc)\<close> is an argument of the function that reads the clock.
    A \<^verbatim>\<open>datetime\<close> lies between \<^verbatim>\<open>datetime.min\<close> (year 1) and \<^verbatim>\<open>datetime.max\<close>
    (year 9999); an addition that leaves this range raises \<^verbatim>\<open>OverflowError\<close>.
  \<^item> An exception is a value of \<open>py_exn\<close>; a function that can raise returns
    \<open>py_exn + result\<close>. Every raise site of the cache comes before the first mutation
    of the call, so a raised exception leaves the cache as it was.
  \<^item> The lock only serialises the calls; one call is one function application here.
\<close>

datatype py_exn =
    KeyError
  | ValueError
  | OverflowError
  | AttributeError
  | HTTPException int string string  \<comment> \<open>status code, detail, WWW-Authenticate header\<close>

text \<open>
  The values of \<^verbatim>\<open>_refresh_tokens\<close>:
  \<^verbatim>\<open>{"refresh_token": str, "expires_at": datetime, "metadata": {"created_at": datetime}}\<close>
  and of \<^verbatim>\<open>_token_lookup\<close>: \<^verbatim>\<open>{"user_id": int, "expires_at": datetime}\<close>.
\<close>

record refresh_entry =
  rt_refresh_token :: string
  rt_expires_at :: int
  rt_created_at :: int

record lookup_entry =
  tl_user_id :: int
  tl_expires_at :: int

record TokenCache =
  refresh_tokens :: "(int \<times> refresh_entry) list"
  token_lookup :: "(string \<times> lookup_entry) list"

definition init_cache :: TokenCache where
  "init_cache = \<lparr>refresh_tokens = [], token_lookup = []\<rparr>"

text \<open>
  \<^verbatim>\<open>datetime.min\<close> is 0001-01-01 00:00:00 and \<^verbatim>\<open>datetime.max\<close> is
  9999-12-31 23:59:59.999999, in microseconds since 1970-01-01. \<open>datetime_add\<close> is
  \<^verbatim>\<open>datetime + timedelta\<close>.
\<close>

definition datetime_min :: int where
  "datetime_min = - 62135596800000000"

definition datetime_max :: int where
  "datetime_max = 253402300799999999"

definition datetime_add :: "int \<Rightarrow> int \<Rightarrow> py_exn + int" where
  "datetime_add dt delta =
     (if dt + delta < datetime_min \<or> datetime_max < dt + delta then Inl OverflowError
      else Inr (dt + delta))"

text \<open>\<^verbatim>\<open>k in d\<close> for a dict.\<close>

definition py_in :: "'k \<Rightarrow> ('k \<times> 'v) list \<Rightarrow> bool" where
  "py_in k d = (map_of d k \<noteq> None)"

text \<open>
  \<^verbatim>\<open>_invalidate_user_tokens\<close>: the first \<^verbatim>\<open>del\<close> raises \<^verbatim>\<open>KeyError\<close> when the
  user's token is not a key of \<^verbatim>\<open>_token_lookup\<close>.
\<close>

definition invalidate_user_tokens :: "TokenCache \<Rightarrow> int \<Rightarrow> py_exn + (bool \<times> TokenCache)" where
  "invalidate_user_tokens c user_id =
     (case map_of (refresh_tokens c) user_id of
        None \<Rightarrow> Inr (False, c)
      | Some e \<Rightarrow>
          (let token = rt_refresh_token e in
           if \<not> py_in token (token_lookup c) then Inl KeyError
           else Inr (True,
                  c\<lparr>token_lookup := AList.delete token (token_lookup c),
                    refresh_tokens := AList.delete user_id (refresh_tokens c)\<rparr>)))"

text \<open>\<^verbatim>\<open>_invalidate_token\<close>: both deletions are guarded, so it never raises.\<close>

definition invalidate_token :: "TokenCache \<Rightarrow> string \<Rightarrow> bool \<times> TokenCache" where
  "invalidate_token c token =
     (case map_of (token_lookup c) token of
        None \<Rightarrow> (False, c)
      | Some info \<Rightarrow>
          (let user_id = tl_user_id info;
               c1 = (if py_in user_id (refresh_tokens c)
                     then c\<lparr>refresh_tokens := AList.delete user_id (refresh_tokens c)\<rparr>
                     else c)
           in (True, c1\<lparr>token_lookup := AList.delete token (token_lookup c1)\<rparr>)))"

text \<open>
  \<^verbatim>\<open>set_token\<close>: \<open>now\<close> is the clock reading of \<^verbatim>\<open>expires_at\<close>, \<open>created\<close> the later
  one stored under \<^verbatim>\<open>metadata\<close>. \<^verbatim>\<open>expires_at\<close> is computed before the lock is taken,
  so its \<^verbatim>\<open>OverflowError\<close> comes before the \<^verbatim>\<open>KeyError\<close> of
  \<^verbatim>\<open>_invalidate_user_tokens\<close>.
\<close>

definition set_token ::
  "TokenCache \<Rightarrow> int \<Rightarrow> string \<Rightarrow> int \<Rightarrow> int \<Rightarrow> int \<Rightarrow> py_exn + (unit \<times> TokenCache)" where
  "set_token c user_id token expires_delta now created =
     (case datetime_add now expires_delta of
        Inl e \<Rightarrow> Inl e
      | Inr expires_at \<Rightarrow>
          (case invalidate_user_tokens c user_id of
             Inl e \<Rightarrow> Inl e
           | Inr (_, c1) \<Rightarrow>
               Inr ((),
                 c1\<lparr>refresh_tokens :=
                       AList.update user_id
                         \<lparr>rt_refresh_token = token, rt_expires_at = expires_at,
                          rt_created_at = created\<rparr>
                         (refresh_tokens c1),
                    token_lookup :=
                       AList.update token \<lparr>tl_user_id = user_id, tl_expires_at = expires_at\<rparr>
                         (token_lookup c1)\<rparr>)))"

text \<open>
  \<^verbatim>\<open>get_user_id_by_token\<close>: a stored \<^verbatim>\<open>token_info\<close> is a dict of two keys, hence truthy;
  \<^verbatim>\<open>not token_info\<close> holds exactly for a missing key.
\<close>

definition get_user_id_by_token :: "TokenCache \<Rightarrow> string \<Rightarrow> int \<Rightarrow> int option \<times> TokenCache" where
  "get_user_id_by_token c token now =
     (case map_of (token_lookup c) token of
        None \<Rightarrow> (None, c)
      | Some token_info \<Rightarrow>
          if tl_expires_at token_info < now then (None, snd (invalidate_token c token))
          else (Some (tl_user_id token_info), c))"

definition delete_token :: "TokenCache \<Rightarrow> int \<Rightarrow> py_exn + (bool \<times> TokenCache)" where
  "delete_token c user_id = invalidate_user_tokens c user_id"

text \<open>
  \<^verbatim>\<open>cleanup_expired_tokens\<close>: two list comprehensions and two loops. The second loop
  deletes keys it has just read from the same dict, so its \<^verbatim>\<open>del\<close> finds each key.
\<close>

definition cleanup_expired_tokens :: "TokenCache \<Rightarrow> int \<Rightarrow> int \<times> TokenCache" where
  "cleanup_expired_tokens c now =
     (let expired_tokens = map fst (filter (\<lambda>(token, data). tl_expires_at data < now) (token_lookup c));
          (c1, removed1) =
             fold (\<lambda>token (c', removed). (snd (invalidate_token c' token), removed + 1))
               expired_tokens (c, 0);
          expired_users = map fst (filter (\<lambda>(user_id, data). rt_expires_at data < now) (refresh_tokens c1));
          (c2, removed2) =
             fold (\<lambda>user_id (c', removed).
                     (c'\<lparr>refresh_tokens := AList.delete user_id (refresh_tokens c')\<rparr>, removed + 1))
               expired_users (c1, removed1)
      in (removed2, c2))"

subsection \<open>Sequences of cache calls and the invariants of the two maps\<close>

text \<open>
  One call of the public interface. \<open>apply_op\<close> gives the cache after the call; a call
  that raises leaves the cache as it was.
\<close>

datatype cache_op =
    SetToken int string int int int   \<comment> \<open>user id, token, expires\_delta, now, created\<close>
  | GetUserIdByToken string int       \<comment> \<open>token, now\<close>
  | DeleteToken int                   \<comment> \<open>user id\<close>
  | CleanupExpiredTokens int          \<comment> \<open>now\<close>

fun apply_op :: "TokenCache \<Rightarrow> cache_op \<Rightarrow> TokenCache" where
  "apply_op c (SetToken user_id token expires_delta now created) =
     (case set_token c user_id token expires_delta now created of
        Inl _ \<Rightarrow> c
      | Inr (_, c') \<Rightarrow> c')"
| "apply_op c (GetUserIdByToken token now) = snd (get_user_id_by_token c token now)"
| "apply_op c (DeleteToken user_id) =
     (case delete_token c user_id of
        Inl _ \<Rightarrow> c
      | Inr (_, c') \<Rightarrow> c')"
| "apply_op c (CleanupExpiredTokens now) = snd (cleanup_expired_tokens c now)"

definition run_ops :: "TokenCache \<Rightarrow> cache_op list \<Rightarrow> TokenCache" where
  "run_ops c ops = foldl apply_op c ops"

text \<open>The keys of a dict are distinct.\<close>

definition keys_distinct :: "TokenCache \<Rightarrow> bool" where
  "keys_distinct c =
     (distinct (map fst (refresh_tokens c)) \<and> distinct (map fst (token_lookup c)))"

text \<open>Every entry of the token lookup has the record of its user, with the same token and expiry.\<close>

definition index_sound :: "TokenCache \<Rightarrow> bool" where
  "index_sound c =
     list_all
       (\<lambda>(token, info).
          case map_of (refresh_tokens c) (tl_user_id info) of
            None \<Rightarrow> False
          | Some e \<Rightarrow> rt_refresh_token e = token \<and> rt_expires_at e = tl_expires_at info)
       (token_lookup c)"

text \<open>
  Every record has exactly one lookup entry: the entries of the lookup that name the user
  are the single entry under the record's token, with the record's expiry.
\<close>

definition records_indexed :: "TokenCache \<Rightarrow> bool" where
  "records_indexed c =
     list_all
       (\<lambda>(user_id, e).
          filter (\<lambda>(token, info). tl_user_id info = user_id) (token_lookup c) =
            [(rt_refresh_token e, \<lparr>tl_user_id = user_id, tl_expires_at = rt_expires_at e\<rparr>)])
       (refresh_tokens c)"

definition mirror :: "TokenCache \<Rightarrow> bool" where
  "mirror c = (index_sound c \<and> records_indexed c)"

text \<open>
  The condition under which \<^verbatim>\<open>_invalidate_user_tokens\<close> (hence \<^verbatim>\<open>set_token\<close> and
  \<^verbatim>\<open>delete_token\<close>) does not raise \<^verbatim>\<open>KeyError\<close> for a user: the user has no record, or
  the record's token is a key of the lookup. \<open>datetime_in_range\<close> is the condition under
  which a \<^verbatim>\<open>datetime\<close> exists.
\<close>

definition datetime_in_range :: "int \<Rightarrow> bool" where
  "datetime_in_range dt = (datetime_min \<le> dt \<and> dt \<le> datetime_max)"

definition user_indexed :: "TokenCache \<Rightarrow> int \<Rightarrow> bool" where
  "user_indexed c user_id =
     (case map_of (refresh_tokens c) user_id of
        None \<Rightarrow> True
      | Some e \<Rightarrow> py_in (rt_refresh_token e) (token_lookup c))"

text \<open>
  A call registers no token string that is, at that moment, the lookup entry of another
  user; \<open>clash_free c ops\<close> says so of every call of a sequence run from \<open>c\<close>.
\<close>

fun no_clash :: "TokenCache \<Rightarrow> cache_op \<Rightarrow> bool" where
  "no_clash c (SetToken user_id token expires_delta now created) =
     (case map_of (token_lookup c) token of
        None \<Rightarrow> True
      | Some info \<Rightarrow> tl_user_id info = user_id)"
| "no_clash c _ = True"

fun clash_free :: "TokenCache \<Rightarrow> cache_op list \<Rightarrow> bool" where
  "clash_free c [] = True"
| "clash_free c (op # ops) = (no_clash c op \<and> clash_free (apply_op c op) ops)"

text \<open>The expired and the live entries of a dict at a clock reading.\<close>

definition expired_records :: "int \<Rightarrow> (int \<times> refresh_entry) list \<Rightarrow> (int \<times> refresh_entry) list" where
  "expired_records now d = filter (\<lambda>(user_id, data). rt_expires_at data < now) d"

definition live_records :: "int \<Rightarrow> (int \<times> refresh_entry) list \<Rightarrow> (int \<times> refresh_entry) list" where
  "live_records now d = filter (\<lambda>(user_id, data). \<not> rt_expires_at data < now) d"

definition live_lookups :: "int \<Rightarrow> (string \<times> lookup_entry) list \<Rightarrow> (string \<times> lookup_entry) list" where
  "live_lookups now d = filter (\<lambda>(token, data). \<not> tl_expires_at data < now) d"

definition expired_lookups :: "int \<Rightarrow> (string \<times> lookup_entry) list \<Rightarrow> (string \<times> lookup_entry) list" where
  "expired_lookups now d = filter (\<lambda>(token, info). tl_expires_at info < now) d"

text \<open>The two directions of the mirror, read through the maps the dicts denote.\<close>

definition lookup_has_record :: "TokenCache \<Rightarrow> bool" where
  "lookup_has_record c =
     (\<forall>t i. map_of (token_lookup c) t = Some i \<longrightarrow>
        (\<exists>e. map_of (refresh_tokens c) (tl_user_id i) = Some e
             \<and> rt_refresh_token e = t \<and> rt_expires_at e = tl_expires_at i))"

definition record_has_lookup :: "TokenCache \<Rightarrow> bool" where
  "record_has_lookup c =
     (\<forall>u e. map_of (refresh_tokens c) u = Some e \<longrightarrow>
        map_of (token_lookup c) (rt_refresh_token e)
          = Some \<lparr>tl_user_id = u, tl_expires_at = rt_expires_at e\<rparr>)"

section \<open>Python strings and integers\<close>

text \<open>
  A \<^verbatim>\<open>str\<close> that the code takes apart, the \<^verbatim>\<open>sub\<close> claim of a token, is the list of its
  code points; \<open>ascii\<close> gives the code points of a literal. The strings that the code only
  stores, compares and hands on (tokens, scopes, names, messages) are \<open>string\<close>s.
\<close>

definition ascii :: "string \<Rightarrow> nat list" where
  "ascii s = map of_char s"

text \<open>
  \<^verbatim>\<open>s.split(sep)\<close> for a one-character separator: the pieces between the occurrences of
  \<open>sep\<close>, never an empty list. \<^verbatim>\<open>[-1]\<close> of the result is its \<open>last\<close> element.
\<close>

fun py_split :: "'a \<Rightarrow> 'a list \<Rightarrow> 'a list list" where
  "py_split sep [] = [[]]"
| "py_split sep (c # cs) =
     (if c = sep then [] # py_split sep cs
      else (case py_split sep cs of
              [] \<Rightarrow> [[c]]
            | w # ws \<Rightarrow> (c # w) # ws))"

text \<open>\<^verbatim>\<open>d.get(key, default)\<close>, given the optional value under the key.\<close>

definition py_get :: "'a option \<Rightarrow> 'a \<Rightarrow> 'a" where
  "py_get v dflt = (case v of None \<Rightarrow> dflt | Some x \<Rightarrow> x)"

text \<open>\<^verbatim>\<open>sep.join(xs)\<close>.\<close>

fun py_join :: "string \<Rightarrow> string list \<Rightarrow> string" where
  "py_join sep [] = []"
| "py_join sep [x] = x"
| "py_join sep (x # y # ys) = x @ sep @ py_join sep (y # ys)"

text \<open>
  What \<^verbatim>\<open>int\<close> and \<^verbatim>\<open>str\<close> take from the interpreter: the Unicode tables behind
  \<^verbatim>\<open>Py_UNICODE_ISSPACE\<close> and \<^verbatim>\<open>Py_UNICODE_TODECIMAL\<close> (the value of a code point that is a
  decimal digit), which CPython consults for code points from 127 on, and
  \<^verbatim>\<open>sys.get_int_max_str_digits()\<close>: 4300 unless configured, 0 for no limit, and never
  below 640 otherwise. An interpreter that predates the limit behaves as with 0.
\<close>

record interpreter =
  Py_UNICODE_ISSPACE :: "nat \<Rightarrow> bool"
  Py_UNICODE_TODECIMAL :: "nat \<Rightarrow> nat option"
  int_max_str_digits :: nat

text \<open>
  \<^verbatim>\<open>int(s)\<close> for a \<^verbatim>\<open>str\<close>, as CPython's \<^verbatim>\<open>PyLong_FromUnicodeObject\<close> computes it; \<open>None\<close>
  is \<^verbatim>\<open>ValueError\<close>. A string with a code point above 127 is first rewritten to ASCII:
  code points below 127 stay, a Unicode space becomes a blank, a Unicode decimal digit its
  ASCII digit, and at any other code point the buffer ends in a question mark.
\<close>

fun transform_decimal_and_space :: "'a interpreter_scheme \<Rightarrow> nat list \<Rightarrow> nat list" where
  "transform_decimal_and_space ip [] = []"
| "transform_decimal_and_space ip (ch # cs) =
     (if ch < 127 then ch # transform_decimal_and_space ip cs
      else if Py_UNICODE_ISSPACE ip ch then 32 # transform_decimal_and_space ip cs
      else (case Py_UNICODE_TODECIMAL ip ch of
              None \<Rightarrow> [63]
            | Some decimal \<Rightarrow> (48 + decimal) # transform_decimal_and_space ip cs))"

definition to_ascii :: "'a interpreter_scheme \<Rightarrow> nat list \<Rightarrow> nat list" where
  "to_ascii ip s = (if list_all (\<lambda>ch. ch < 128) s then s else transform_decimal_and_space ip s)"

text \<open>
  Then \<^verbatim>\<open>PyLong_FromString\<close> in base 10 reads the buffer: the whitespace of
  \<^verbatim>\<open>Py_ISSPACE\<close> (9 to 13 and 32) is skipped at both ends, an optional sign follows, then
  decimal digits, single underscores allowed between digits; the number of digits is held
  against the limit. Anything else is an error, a NUL among it.
\<close>

definition Py_ISSPACE :: "nat \<Rightarrow> bool" where
  "Py_ISSPACE ch = ((9 \<le> ch \<and> ch \<le> 13) \<or> ch = 32)"

definition is_digit :: "nat \<Rightarrow> bool" where
  "is_digit ch = (48 \<le> ch \<and> ch \<le> 57)"

definition digit_val :: "nat \<Rightarrow> nat" where
  "digit_val ch = ch - 48"

fun digits_rest :: "nat \<Rightarrow> nat list \<Rightarrow> nat option" where
  "digits_rest acc [] = Some acc"
| "digits_rest acc [c] = (if is_digit c then Some (10 * acc + digit_val c) else None)"
| "digits_rest acc (c # d # cs) =
     (if is_digit c then digits_rest (10 * acc + digit_val c) (d # cs)
      else if c = 95 \<and> is_digit d then digits_rest (10 * acc + digit_val d) cs
      else None)"

definition py_digits :: "nat list \<Rightarrow> nat option" where
  "py_digits s =
     (case s of
        [] \<Rightarrow> None
      | c # cs \<Rightarrow> if is_digit c then digits_rest (digit_val c) cs else None)"

definition exceeds_max_str_digits :: "'a interpreter_scheme \<Rightarrow> nat \<Rightarrow> bool" where
  "exceeds_max_str_digits ip digits =
     (digits > 640 \<and> int_max_str_digits ip > 0 \<and> digits > int_max_str_digits ip)"

definition long_from_string :: "'a interpreter_scheme \<Rightarrow> nat list \<Rightarrow> int option" where
  "long_from_string ip buf =
     (case rev (dropWhile Py_ISSPACE (rev (dropWhile Py_ISSPACE buf))) of
        [] \<Rightarrow> None
      | c # cs \<Rightarrow>
          (let body = (if c = 45 \<or> c = 43 then cs else c # cs) in
           if exceeds_max_str_digits ip (length (filter is_digit body)) then None
           else if c = 45 then map_option (\<lambda>n. - int n) (py_digits body)
           else map_option int (py_digits body)))"

definition py_int :: "'a interpreter_scheme \<Rightarrow> nat list \<Rightarrow> int option" where
  "py_int ip s = long_from_string ip (to_ascii ip s)"

text \<open>
  \<^verbatim>\<open>str(i)\<close> of an int, as an f-string formats it: \<^verbatim>\<open>ValueError\<close> when the number of
  digits exceeds the limit.
\<close>

fun digits_of :: "nat \<Rightarrow> nat list" where
  "digits_of n =
     (if n < 10 then [48 + n]
      else digits_of (n div 10) @ [48 + n mod 10])"

declare digits_of.simps [simp del]

definition py_str :: "'a interpreter_scheme \<Rightarrow> int \<Rightarrow> py_exn + nat list" where
  "py_str ip i =
     (let ds = digits_of (nat \<bar>i\<bar>) in
      if exceeds_max_str_digits ip (length ds) then Inl ValueError
      else Inr (if i < 0 then 45 # ds else ds))"

section \<open>Tokens and the endpoints (app/security.py, app/routers/auth.py)\<close>

text \<open>
  The claims of a token, as far as the code reads or writes them. A claim that is absent
  is \<open>None\<close>. \<^verbatim>\<open>type\<close> and \<^verbatim>\<open>scopes\<close> are modelled at the types the server mints them
  with (a string, a list of strings); \<^verbatim>\<open>sub\<close> is a \<^verbatim>\<open>str\<close> whenever the library accepts
  the token.
\<close>

record claims =
  sub :: "nat list option"
  type :: "string option"
  scopes :: "string list option"
  exp :: "int option"
  iat :: "int option"
  iss :: "string option"
  aud :: "string option"

definition no_claims :: claims where
  "no_claims = \<lparr>sub = None, type = None, scopes = None, exp = None, iat = None,
                 iss = None, aud = None\<rparr>"

text \<open>The defaults of app/config.py; each can be overridden by the environment.\<close>

definition JWT_ISSUER :: string where
  "JWT_ISSUER = ''ModernWMS.Py''"

definition JWT_AUDIENCE :: string where
  "JWT_AUDIENCE = ''ModernWMS.Client''"

definition JWT_EXPIRE_MINUTES :: int where
  "JWT_EXPIRE_MINUTES = 60"

definition timedelta_minutes :: "int \<Rightarrow> int" where
  "timedelta_minutes m = m * 60000000"

definition timedelta_days :: "int \<Rightarrow> int" where
  "timedelta_days d = d * 86400000000"

text \<open>\<^verbatim>\<open>int(delta.total_seconds())\<close> of a non-negative \<^verbatim>\<open>timedelta\<close>.\<close>

definition total_seconds :: "int \<Rightarrow> int" where
  "total_seconds delta = delta div 1000000"

text \<open>
  The rows of \<^verbatim>\<open>models.User\<close> that the endpoints read.
\<close>

record User =
  user_id :: int
  user_num :: string
  user_name :: string
  password :: string
  user_role :: string
  userrole_id :: int
  tenant_id :: int
  email :: "string option"
  phone :: "string option"

text \<open>
  The attributes that app/models.py gives the mapped class \<^verbatim>\<open>User\<close>: its own columns and
  those of \<^verbatim>\<open>BaseMixin\<close>. Reading any other column off the class, as in
  \<^verbatim>\<open>models.User.id\<close>, raises \<^verbatim>\<open>AttributeError\<close>.
\<close>

definition User_columns :: "string list" where
  "User_columns =
     [''user_id'', ''user_num'', ''user_name'', ''password'', ''user_role'', ''userrole_id'',
      ''tenant_id'', ''email'', ''phone'', ''avatar'',
      ''create_time'', ''last_update_time'', ''is_valid'', ''is_deleted'']"

text \<open>
  What the endpoints consume from outside the repository: the interpreter, the \<^verbatim>\<open>jose\<close>
  codec with the configured secret (\<open>jwt_decode\<close> is \<open>None\<close> where \<^verbatim>\<open>jwt.decode\<close> raises
  \<^verbatim>\<open>JWTError\<close>: bad signature, expired, wrong issuer or audience), the database
  (\<open>find_login_user\<close> and \<open>find_user\<close>: the active, non-deleted user with a given user name
  or number, and with a given id), \<^verbatim>\<open>passlib\<close>'s \<^verbatim>\<open>verify\<close> and \<^verbatim>\<open>hashlib\<close>'s MD5.
\<close>

record env = interpreter +
  jwt_encode :: "claims \<Rightarrow> string"
  jwt_decode :: "string \<Rightarrow> claims option"
  find_login_user :: "string \<Rightarrow> User option"
  find_user :: "int \<Rightarrow> User option"
  verify_password :: "string \<Rightarrow> string \<Rightarrow> bool"
  md5_hex :: "string \<Rightarrow> string"

text \<open>
  The two queries. The statement of \<^verbatim>\<open>login\<close> reads the columns \<^verbatim>\<open>user_name\<close>,
  \<^verbatim>\<open>user_num\<close>, \<^verbatim>\<open>is_active\<close> and \<^verbatim>\<open>is_deleted\<close> off \<^verbatim>\<open>models.User\<close>; that of
  \<^verbatim>\<open>refresh_token\<close> and of \<^verbatim>\<open>get_current_user\<close> reads \<^verbatim>\<open>id\<close>, \<^verbatim>\<open>is_active\<close> and
  \<^verbatim>\<open>is_deleted\<close>. The statement is built before the database is asked, so a missing
  column raises before any row is read. A query that finds a user returns a row object,
  which is truthy.
\<close>

definition login_query :: "env \<Rightarrow> string \<Rightarrow> py_exn + User option" where
  "login_query ev username =
     (if list_all (\<lambda>column. column \<in> set User_columns)
           [''user_name'', ''user_num'', ''is_active'', ''is_deleted'']
      then Inr (find_login_user ev username)
      else Inl AttributeError)"

definition user_query :: "env \<Rightarrow> int \<Rightarrow> py_exn + User option" where
  "user_query ev uid =
     (if list_all (\<lambda>column. column \<in> set User_columns) [''id'', ''is_active'', ''is_deleted'']
      then Inr (find_user ev uid)
      else Inl AttributeError)"

text \<open>
  \<^verbatim>\<open>create_access_token\<close>: \<open>access_claims\<close> is \<^verbatim>\<open>to_encode\<close>. A \<^verbatim>\<open>timedelta\<close> of zero is
  falsy, as is an empty list of scopes.
\<close>

definition access_claims ::
  "claims \<Rightarrow> int option \<Rightarrow> string list option \<Rightarrow> int \<Rightarrow> py_exn + claims" where
  "access_claims data expires_delta scopes' now =
     (case (case expires_delta of
              None \<Rightarrow> datetime_add now (timedelta_minutes JWT_EXPIRE_MINUTES)
            | Some d \<Rightarrow> if d \<noteq> 0 then datetime_add now d
                       else datetime_add now (timedelta_minutes JWT_EXPIRE_MINUTES)) of
        Inl e \<Rightarrow> Inl e
      | Inr expire \<Rightarrow>
          Inr (data\<lparr>exp := Some expire, iat := Some now, iss := Some JWT_ISSUER,
                    aud := Some JWT_AUDIENCE,
                    scopes := Some (case scopes' of
                                      None \<Rightarrow> [''user'']
                                    | Some [] \<Rightarrow> [''user'']
                                    | Some (x # xs) \<Rightarrow> x # xs)\<rparr>))"

definition create_access_token ::
  "env \<Rightarrow> claims \<Rightarrow> int option \<Rightarrow> string list option \<Rightarrow> int \<Rightarrow> py_exn + string" where
  "create_access_token ev data expires_delta scopes' now =
     (case access_claims data expires_delta scopes' now of
        Inl e \<Rightarrow> Inl e
      | Inr to_encode \<Rightarrow> Inr (jwt_encode ev to_encode))"

definition refresh_claims :: "env \<Rightarrow> int \<Rightarrow> int option \<Rightarrow> int \<Rightarrow> py_exn + claims" where
  "refresh_claims ev uid expires_delta now =
     (case (case expires_delta of
              None \<Rightarrow> datetime_add now (timedelta_days 30)
            | Some d \<Rightarrow> if d \<noteq> 0 then datetime_add now d
                       else datetime_add now (timedelta_days 30)) of
        Inl e \<Rightarrow> Inl e
      | Inr expire \<Rightarrow>
          (case py_str ev uid of
             Inl e \<Rightarrow> Inl e
           | Inr uid_str \<Rightarrow>
               Inr \<lparr>sub = Some (ascii ''refresh:'' @ uid_str), type = Some ''refresh'',
                    scopes = None, exp = Some expire, iat = Some now, iss = Some JWT_ISSUER,
                    aud = Some JWT_AUDIENCE\<rparr>))"

definition create_refresh_token :: "env \<Rightarrow> int \<Rightarrow> int option \<Rightarrow> int \<Rightarrow> py_exn + string" where
  "create_refresh_token ev uid expires_delta now =
     (case refresh_claims ev uid expires_delta now of
        Inl e \<Rightarrow> Inl e
      | Inr to_encode \<Rightarrow> Inr (jwt_encode ev to_encode))"

text \<open>
  \<^verbatim>\<open>TokenCache.verify_token\<close> (app/cache.py). \<^verbatim>\<open>JWTError\<close> is caught and gives \<^verbatim>\<open>None\<close>;
  the \<^verbatim>\<open>ValueError\<close> of \<^verbatim>\<open>int\<close> is not. \<^verbatim>\<open>not user_id\<close> holds for \<^verbatim>\<open>None\<close> and for 0,
  and \<^verbatim>\<open>or\<close> evaluates \<^verbatim>\<open>int\<close> only when it is false. An exception is raised only after
  \<^verbatim>\<open>get_user_id_by_token\<close> has returned an id, which leaves the cache as it was.
\<close>

definition verify_token ::
  "env \<Rightarrow> TokenCache \<Rightarrow> string \<Rightarrow> int \<Rightarrow> py_exn + (claims option \<times> TokenCache)" where
  "verify_token ev c token now =
     (case jwt_decode ev token of
        None \<Rightarrow> Inr (None, c)
      | Some payload \<Rightarrow>
          if type payload = Some ''refresh'' then
            (case get_user_id_by_token c token now of
               (None, c') \<Rightarrow> Inr (None, c')
             | (Some uid, c') \<Rightarrow>
                 if uid = 0 then Inr (None, c')
                 else (case py_int ev (last (py_split 58 (py_get (sub payload) (ascii '':'')))) of
                         None \<Rightarrow> Inl ValueError
                       | Some n \<Rightarrow> if uid \<noteq> n then Inr (None, c') else Inr (Some payload, c')))
          else Inr (Some payload, c))"

text \<open>The response envelope of app/schemas.py.\<close>

record 'a ResultModel =
  isSuccess :: bool
  code :: int
  errorMessage :: string
  data :: "'a option"

definition result_success :: "'a \<Rightarrow> 'a ResultModel" where
  "result_success d = \<lparr>isSuccess = True, code = 200, errorMessage = [], data = Some d\<rparr>"

definition result_error :: "string \<Rightarrow> int \<Rightarrow> 'a ResultModel" where
  "result_error msg c = \<lparr>isSuccess = False, code = c, errorMessage = msg, data = None\<rparr>"

text \<open>
  The scopes of a role; \<^verbatim>\<open>login\<close> and \<^verbatim>\<open>refresh_token\<close> compute them by the same
  statements (\<^verbatim>\<open>extend\<close> and \<^verbatim>\<open>append\<close> on the list \<^verbatim>\<open>["user"]\<close>).
\<close>

definition role_scopes :: "string \<Rightarrow> string list" where
  "role_scopes role =
     (if role = ''admin'' then [''user''] @ [''admin'', ''manager'']
      else if role = ''manager'' then [''user''] @ [''manager'']
      else [''user''])"

record login_data =
  l_user_id :: int
  l_user_name :: string
  l_user_num :: string
  l_user_role :: string
  l_userrole_id :: int
  l_tenant_id :: int
  l_email :: "string option"
  l_phone :: "string option"
  l_access_token :: string
  l_token_type :: string
  l_expires_in :: int
  l_refresh_token :: string
  l_scopes :: "string list"

text \<open>
  \<^verbatim>\<open>login\<close>: the query, then \<open>login_checks\<close>, the statements that follow it, given what the
  query returned. The four clock readings are those of \<^verbatim>\<open>create_access_token\<close>,
  \<^verbatim>\<open>create_refresh_token\<close> and the two of \<^verbatim>\<open>set_token\<close>. Nothing in \<^verbatim>\<open>login\<close> catches an
  exception.
\<close>

definition login_checks ::
  "env \<Rightarrow> TokenCache \<Rightarrow> User option \<Rightarrow> string \<Rightarrow> int \<Rightarrow> int \<Rightarrow> int \<Rightarrow> int
     \<Rightarrow> py_exn + (login_data ResultModel \<times> TokenCache)" where
  "login_checks ev c found pwd now_access now_refresh now_set now_created =
     (case found of
        None \<Rightarrow> Inr (result_error ''Incorrect username or password'' 400, c)
      | Some user \<Rightarrow>
          (let incoming_pwd = (if length pwd \<noteq> 32 then md5_hex ev pwd else pwd) in
           if \<not> verify_password ev incoming_pwd (password user)
           then Inr (result_error ''Incorrect username or password'' 400, c)
           else
             (let scopes' = role_scopes (user_role user);
                  access_token_expires = timedelta_minutes 30
              in case py_str ev (user_id user) of
                   Inl e \<Rightarrow> Inl e
                 | Inr uid_str \<Rightarrow>
                     (case create_access_token ev (no_claims\<lparr>sub := Some (ascii ''user:'' @ uid_str)\<rparr>)
                             (Some access_token_expires) (Some scopes') now_access of
                        Inl e \<Rightarrow> Inl e
                      | Inr access_token \<Rightarrow>
                          (case create_refresh_token ev (user_id user) None now_refresh of
                             Inl e \<Rightarrow> Inl e
                           | Inr refresh_tok \<Rightarrow>
                               (case set_token c (user_id user) refresh_tok (timedelta_days 30)
                                       now_set now_created of
                                  Inl e \<Rightarrow> Inl e
                                | Inr (_, c') \<Rightarrow>
                                    Inr (result_success
                                           \<lparr>l_user_id = user_id user, l_user_name = user_name user,
                                            l_user_num = user_num user, l_user_role = user_role user,
                                            l_userrole_id = userrole_id user,
                                            l_tenant_id = tenant_id user,
                                            l_email = email user, l_phone = phone user,
                                            l_access_token = access_token, l_token_type = ''bearer'',
                                            l_expires_in = total_seconds access_token_expires,
                                            l_refresh_token = refresh_tok, l_scopes = scopes'\<rparr>,
                                         c')))))))"

definition login ::
  "env \<Rightarrow> TokenCache \<Rightarrow> string \<Rightarrow> string \<Rightarrow> int \<Rightarrow> int \<Rightarrow> int \<Rightarrow> int
     \<Rightarrow> py_exn + (login_data ResultModel \<times> TokenCache)" where
  "login ev c username pwd now_access now_refresh now_set now_created =
     (case login_query ev username of
        Inl e \<Rightarrow> Inl e
      | Inr found \<Rightarrow> login_checks ev c found pwd now_access now_refresh now_set now_created)"

record refresh_data =
  r_access_token :: string
  r_token_type :: string
  r_expires_in :: int
  r_refresh_token :: string
  r_user_id :: int
  r_scopes :: "string list"

text \<open>
  \<^verbatim>\<open>refresh_token\<close>: the whole body is under \<^verbatim>\<open>except Exception\<close>, so every exception
  raised in it (the \<^verbatim>\<open>ValueError\<close> of \<^verbatim>\<open>verify_token\<close> and of \<^verbatim>\<open>int\<close>, the
  \<^verbatim>\<open>AttributeError\<close> of the query) gives the error result. A decoded payload holds the
  verified \<^verbatim>\<open>iss\<close> claim, so \<^verbatim>\<open>not payload\<close> holds exactly for \<^verbatim>\<open>None\<close>.
\<close>

definition refresh_token ::
  "env \<Rightarrow> TokenCache \<Rightarrow> string \<Rightarrow> int \<Rightarrow> int \<Rightarrow> refresh_data ResultModel \<times> TokenCache" where
  "refresh_token ev c token now now_access =
     (case verify_token ev c token now of
        Inl e \<Rightarrow> (result_error ''Invalid refresh token'' 400, c)
      | Inr (None, c') \<Rightarrow> (result_error ''Invalid refresh token'' 400, c')
      | Inr (Some payload, c') \<Rightarrow>
          if type payload \<noteq> Some ''refresh'' then (result_error ''Invalid refresh token'' 400, c')
          else
            (case py_int ev (last (py_split 58 (py_get (sub payload) (ascii '':'')))) of
               None \<Rightarrow> (result_error ''Invalid refresh token'' 400, c')
             | Some uid \<Rightarrow>
                 if uid = 0 then (result_error ''Invalid token format'' 400, c')
                 else
                   (case user_query ev uid of
                      Inl e \<Rightarrow> (result_error ''Invalid refresh token'' 400, c')
                    | Inr None \<Rightarrow> (result_error ''User not found'' 404, c')
                    | Inr (Some user) \<Rightarrow>
                        (let scopes' = role_scopes (user_role user);
                             access_token_expires = timedelta_minutes 30
                         in case py_str ev (user_id user) of
                              Inl e \<Rightarrow> (result_error ''Invalid refresh token'' 400, c')
                            | Inr uid_str \<Rightarrow>
                                (case create_access_token ev
                                        (no_claims\<lparr>sub := Some (ascii ''user:'' @ uid_str)\<rparr>)
                                        (Some access_token_expires) (Some scopes') now_access of
                                   Inl e \<Rightarrow> (result_error ''Invalid refresh token'' 400, c')
                                 | Inr access_token \<Rightarrow>
                                     (result_success
                                        \<lparr>r_access_token = access_token, r_token_type = ''bearer'',
                                         r_expires_in = total_seconds access_token_expires,
                                         r_refresh_token = token, r_user_id = user_id user,
                                         r_scopes = scopes'\<rparr>, c'))))))"

text \<open>
  \<^verbatim>\<open>get_current_user\<close>: \<open>security_scopes\<close> is \<^verbatim>\<open>security_scopes.scopes\<close>. Only
  \<^verbatim>\<open>JWTError\<close> (and pydantic's \<^verbatim>\<open>ValidationError\<close>, which nothing here raises) is turned
  into the 401; an \<^verbatim>\<open>HTTPException\<close> raised inside the \<^verbatim>\<open>try\<close> passes through, and so do
  the \<^verbatim>\<open>ValueError\<close> of \<^verbatim>\<open>int\<close> and the \<^verbatim>\<open>AttributeError\<close> of the query.
\<close>

definition authenticate_value :: "string list \<Rightarrow> string" where
  "authenticate_value security_scopes =
     (if security_scopes \<noteq> []
      then ''Bearer scope='' @ [CHR 0x22] @ py_join '' '' security_scopes @ [CHR 0x22]
      else ''Bearer'')"

definition credentials_exception :: "string list \<Rightarrow> py_exn" where
  "credentials_exception security_scopes =
     HTTPException 401 ''Could not validate credentials'' (authenticate_value security_scopes)"

definition get_current_user :: "env \<Rightarrow> string list \<Rightarrow> string \<Rightarrow> py_exn + User" where
  "get_current_user ev security_scopes token =
     (case jwt_decode ev token of
        None \<Rightarrow> Inl (credentials_exception security_scopes)
      | Some payload \<Rightarrow>
          (case py_int ev (last (py_split 58 (py_get (sub payload) (ascii '''')))) of
             None \<Rightarrow> Inl ValueError
           | Some uid \<Rightarrow>
               if uid = 0 then Inl (credentials_exception security_scopes)
               else if py_get (type payload) ''access'' \<noteq> ''access''
               then Inl (HTTPException 403 ''Invalid token type'' (authenticate_value security_scopes))
               else
                 (case user_query ev uid of
                    Inl e \<Rightarrow> Inl e
                  | Inr None \<Rightarrow> Inl (credentials_exception security_scopes)
                  | Inr (Some user) \<Rightarrow>
                      (let token_scopes = py_get (scopes payload) [] in
                       if security_scopes \<noteq> []
                          \<and> \<not> list_all (\<lambda>scope. scope \<in> set token_scopes) security_scopes
                       then Inl (HTTPException 403 ''Not enough permissions''
                                   (authenticate_value security_scopes))
                       else Inr user))))"

subsection \<open>Values for the closed instances\<close>

text \<open>
  The tables of Unicode 14.0.0, which CPython 3.11 carries: the code points that are
  whitespace, and the code points of the digit zero of every script (the nine that follow
  each are its digits one to nine).
\<close>

definition unicode_whitespace :: "nat list" where
  "unicode_whitespace =
     [9, 10, 11, 12, 13, 28, 29, 30, 31, 32, 133, 160, 5760, 8192, 8193, 8194, 8195, 8196, 8197,
      8198, 8199, 8200, 8201, 8202, 8232, 8233, 8239, 8287, 12288]"

definition unicode_decimal_zeros :: "nat list" where
  "unicode_decimal_zeros =
     [48, 1632, 1776, 1984, 2406, 2534, 2662, 2790, 2918, 3046, 3174, 3302, 3430, 3558, 3664,
      3792, 3872, 4160, 4240, 6112, 6160, 6470, 6608, 6784, 6800, 6992, 7088, 7232, 7248, 42528,
      43216, 43264, 43472, 43504, 43600, 44016, 65296, 66720, 68912, 69734, 69872, 69942, 70096,
      70384, 70736, 70864, 71248, 71360, 71472, 71904, 72016, 72784, 73040, 73120, 92768, 92864,
      93008, 120782, 120792, 120802, 120812, 120822, 123200, 123632, 125264, 130032]"

text \<open>
  An environment with these tables and the default digit limit, whose codec decodes every
  string to given claims and whose database holds at most one user; a user row; the claims
  of the tokens that \<^verbatim>\<open>create_refresh_token\<close> and \<^verbatim>\<open>login\<close>'s call of
  \<^verbatim>\<open>create_access_token\<close> mint at clock reading 0; and two caches: one holding a refresh
  token of user 7, one holding a refresh token of user 0.
\<close>

definition demo_user :: "int \<Rightarrow> string \<Rightarrow> User" where
  "demo_user uid role =
     \<lparr>user_id = uid, user_num = ''U-1'', user_name = ''alice'', password = ''secret'',
      user_role = role, userrole_id = 1, tenant_id = 1, email = None, phone = None\<rparr>"

definition demo_env :: "(string \<Rightarrow> claims option) \<Rightarrow> User option \<Rightarrow> env" where
  "demo_env decode user =
     \<lparr>Py_UNICODE_ISSPACE = (\<lambda>ch. ch \<in> set unicode_whitespace),
      Py_UNICODE_TODECIMAL =
        (\<lambda>ch. map_option (\<lambda>zero. ch - zero)
                (find (\<lambda>zero. zero \<le> ch \<and> ch < zero + 10) unicode_decimal_zeros)),
      int_max_str_digits = 4300,
      jwt_encode = (\<lambda>cl. if type cl = Some ''refresh'' then ''refresh-token'' else ''access-token''),
      jwt_decode = decode,
      find_login_user = (\<lambda>name. case user of
                                    None \<Rightarrow> None
                                  | Some u \<Rightarrow> if name = user_name u \<or> name = user_num u
                                              then Some u else None),
      find_user = (\<lambda>uid. case user of
                             None \<Rightarrow> None
                           | Some u \<Rightarrow> if user_id u = uid then Some u else None),
      verify_password = (\<lambda>plain hashed. plain = hashed),
      md5_hex = (\<lambda>s. s)\<rparr>"

definition demo_refresh_claims :: "int \<Rightarrow> claims" where
  "demo_refresh_claims uid =
     \<lparr>sub = Some (ascii ''refresh:'' @ digits_of (nat uid)), type = Some ''refresh'',
      scopes = None, exp = Some (timedelta_days 30), iat = Some 0, iss = Some JWT_ISSUER,
      aud = Some JWT_AUDIENCE\<rparr>"

definition demo_access_claims :: "User \<Rightarrow> claims" where
  "demo_access_claims user =
     \<lparr>sub = Some (ascii ''user:'' @ digits_of (nat (user_id user))), type = None,
      scopes = Some (role_scopes (user_role user)), exp = Some (timedelta_minutes 30),
      iat = Some 0, iss = Some JWT_ISSUER, aud = Some JWT_AUDIENCE\<rparr>"

definition demo_cache :: TokenCache where
  "demo_cache =
     \<lparr>refresh_tokens = [(7, \<lparr>rt_refresh_token = ''refresh:7'', rt_expires_at = 1000, rt_created_at = 0\<rparr>)],
      token_lookup = [(''refresh:7'', \<lparr>tl_user_id = 7, tl_expires_at = 1000\<rparr>)]\<rparr>"

definition zero_cache :: TokenCache where
  "zero_cache =
     \<lparr>refresh_tokens = [(0, \<lparr>rt_refresh_token = ''refresh:0'', rt_expires_at = 1000, rt_created_at = 0\<rparr>)],
      token_lookup = [(''refresh:0'', \<lparr>tl_user_id = 0, tl_expires_at = 1000\<rparr>)]\<rparr>"

section \<open>Properties of the cache\<close>

subsection \<open>Dicts as association lists\<close>

lemma map_of_delete_same: "map_of (AList.delete k al) k = None"
  by (simp add: delete_conv')

lemma delete_absent: "map_of al k = None \<Longrightarrow> AList.delete k al = al"
  by (simp add: map_of_eq_None_iff)

lemma delete_as_filter: "AList.delete k al = filter (\<lambda>p. fst p \<noteq> k) al"
  by (induction al) auto

lemma fold_delete_filter: "fold AList.delete ks al = filter (\<lambda>p. fst p \<notin> set ks) al"
proof (induction ks arbitrary: al)
  case Nil
  then show ?case by simp
next
  case (Cons k ks)
  have "fold AList.delete (k # ks) al = filter (\<lambda>p. fst p \<notin> set ks) (AList.delete k al)"
    using Cons.IH by simp
  also have "\<dots> = filter (\<lambda>p. fst p \<notin> set (k # ks)) al"
    unfolding delete_as_filter filter_filter by (rule filter_cong) auto
  finally show ?case .
qed

lemma key_selected_iff:
  assumes "distinct (map fst al)" and "p \<in> set al"
  shows "fst p \<in> set (map fst (filter P al)) \<longleftrightarrow> P p"
proof
  assume "fst p \<in> set (map fst (filter P al))"
  then obtain q where q: "q \<in> set al" "P q" "fst q = fst p" by auto
  have "(fst p, snd q) = q"
    using q(3) by (simp add: prod_eq_iff)
  then have "(fst p, snd q) \<in> set al"
    using q(1) by simp
  moreover have "(fst p, snd p) \<in> set al"
    using assms(2) by simp
  ultimately have "snd q = snd p"
    using assms(1) by (rule_tac eq_key_imp_eq_value)
  then have "q = p"
    using q(3) by (simp add: prod_eq_iff)
  then show "P p" using q by simp
next
  assume "P p"
  then show "fst p \<in> set (map fst (filter P al))" using assms(2) by force
qed

lemma delete_selected_keys:
  assumes "distinct (map fst al)"
  shows "fold AList.delete (map fst (filter P al)) al = filter (\<lambda>p. \<not> P p) al"
  unfolding fold_delete_filter
proof (rule filter_cong [OF refl])
  fix p assume "p \<in> set al"
  from key_selected_iff [OF assms this, of P]
  show "(fst p \<notin> set (map fst (filter P al))) = (\<not> P p)" by blast
qed

lemma filter_delete_count:
  assumes "distinct (map fst al)" and "map_of al k = Some v" and "P (k, v)"
  shows "length (filter P al) = Suc (length (filter P (AList.delete k al)))"
  using assms
proof (induction al)
  case Nil
  then show ?case by simp
next
  case (Cons p al)
  show ?case
  proof (cases "fst p = k")
    case True
    then have "p = (k, v)" using Cons.prems by (cases p) auto
    moreover have "k \<notin> fst ` set al"
      using Cons.prems True by auto
    then have "AList.delete k al = al"
      by (rule AList.delete_id)
    ultimately show ?thesis using Cons.prems by simp
  next
    case False
    then have "map_of al k = Some v" using Cons.prems by (cases p) auto
    then show ?thesis using Cons False by (cases p) auto
  qed
qed

lemma filter_delete_keep:
  assumes "distinct (map fst al)" and "map_of al k = Some v" and "\<not> P (k, v)"
  shows "filter P (AList.delete k al) = filter P al"
proof -
  have "filter P (AList.delete k al) = filter (\<lambda>p. P p \<and> fst p \<noteq> k) al"
    unfolding delete_as_filter filter_filter by (rule filter_cong) auto
  also have "\<dots> = filter P al"
  proof (rule filter_cong)
    fix p assume p: "p \<in> set al"
    have "fst p = k \<Longrightarrow> p = (k, v)"
    proof -
      assume "fst p = k"
      then have "(k, snd p) = p" by (simp add: prod_eq_iff)
      then have "(k, snd p) \<in> set al" using p by simp
      moreover have "(k, v) \<in> set al" using assms(2) by (rule map_of_SomeD)
      ultimately have "snd p = v" using assms(1) by (rule_tac eq_key_imp_eq_value)
      then show "p = (k, v)" using \<open>fst p = k\<close> by (simp add: prod_eq_iff)
    qed
    then show "(P p \<and> fst p \<noteq> k) = P p" using assms(3) by auto
  qed simp
  finally show ?thesis .
qed



subsection \<open>Single calls\<close>

lemma datetime_add_cases:
  assumes "datetime_add dt delta = Inr x"
  shows "x = dt + delta" and "datetime_in_range (dt + delta)"
  using assms by (auto simp: datetime_add_def datetime_in_range_def split: if_splits)


lemma datetime_add_overflow:
  "\<not> datetime_in_range (dt + delta) \<Longrightarrow> datetime_add dt delta = Inl OverflowError"
  by (auto simp: datetime_add_def datetime_in_range_def)

lemma set_token_overflow:
  "\<not> datetime_in_range (now + d) \<Longrightarrow> set_token c u t d now cr = Inl OverflowError"
  by (simp add: set_token_def datetime_add_overflow)




lemma invalidate_token_present:
  "map_of (token_lookup c) t = Some i \<Longrightarrow>
   invalidate_token c t =
     (True, c\<lparr>refresh_tokens := AList.delete (tl_user_id i) (refresh_tokens c),
              token_lookup := AList.delete t (token_lookup c)\<rparr>)"
  by (auto simp: invalidate_token_def Let_def py_in_def map_of_eq_None_iff)

subsection \<open>Invalidating the token of a user\<close>

lemma invalidate_user_tokens_cases:
  assumes "invalidate_user_tokens c u = Inr (b, c')"
  obtains (absent) "map_of (refresh_tokens c) u = None" "b = False" "c' = c"
  | (present) e i where "map_of (refresh_tokens c) u = Some e"
      "map_of (token_lookup c) (rt_refresh_token e) = Some i" "b = True"
      "c' = c\<lparr>token_lookup := AList.delete (rt_refresh_token e) (token_lookup c),
              refresh_tokens := AList.delete u (refresh_tokens c)\<rparr>"
  using assms
  by (auto simp: invalidate_user_tokens_def Let_def py_in_def split: option.splits if_splits)

lemma invalidate_user_tokens_record_gone:
  "invalidate_user_tokens c u = Inr (b, c') \<Longrightarrow> map_of (refresh_tokens c') u = None"
  by (erule invalidate_user_tokens_cases) (simp_all add: delete_conv')

lemma keys_distinct_invalidate_user_tokens:
  "invalidate_user_tokens c u = Inr (b, c') \<Longrightarrow> keys_distinct c \<Longrightarrow> keys_distinct c'"
  by (erule invalidate_user_tokens_cases) (simp_all add: keys_distinct_def distinct_delete)

lemma lookup_has_record_invalidate_user_tokens:
  assumes "invalidate_user_tokens c u = Inr (b, c')" and "lookup_has_record c"
  shows "lookup_has_record c'"
  using assms(1)
proof (cases rule: invalidate_user_tokens_cases)
  case absent
  then show ?thesis using assms(2) by simp
next
  case (present e i)
  show ?thesis
    unfolding lookup_has_record_def
  proof (intro allI impI)
    fix t j assume "map_of (token_lookup c') t = Some j"
    then have t: "t \<noteq> rt_refresh_token e" and j: "map_of (token_lookup c) t = Some j"
      using present(4) by (auto simp: delete_conv' split: if_splits)
    from assms(2) j obtain e' where e': "map_of (refresh_tokens c) (tl_user_id j) = Some e'"
        "rt_refresh_token e' = t" "rt_expires_at e' = tl_expires_at j"
      unfolding lookup_has_record_def by blast
    have "tl_user_id j \<noteq> u" using e' present(1) t by auto
    then show "\<exists>e. map_of (refresh_tokens c') (tl_user_id j) = Some e
             \<and> rt_refresh_token e = t \<and> rt_expires_at e = tl_expires_at j"
      using e' present(4) by (simp add: delete_conv')
  qed
qed

lemma record_has_lookup_invalidate_user_tokens:
  assumes "invalidate_user_tokens c u = Inr (b, c')" and "record_has_lookup c"
  shows "record_has_lookup c'"
  using assms(1)
proof (cases rule: invalidate_user_tokens_cases)
  case absent
  then show ?thesis using assms(2) by simp
next
  case (present e i)
  have eu: "map_of (token_lookup c) (rt_refresh_token e)
              = Some \<lparr>tl_user_id = u, tl_expires_at = rt_expires_at e\<rparr>"
    using assms(2) present(1) unfolding record_has_lookup_def by blast
  show ?thesis
    unfolding record_has_lookup_def
  proof (intro allI impI)
    fix u' e' assume "map_of (refresh_tokens c') u' = Some e'"
    then have u': "u' \<noteq> u" and r: "map_of (refresh_tokens c) u' = Some e'"
      using present(4) by (auto simp: delete_conv' split: if_splits)
    have l: "map_of (token_lookup c) (rt_refresh_token e')
              = Some \<lparr>tl_user_id = u', tl_expires_at = rt_expires_at e'\<rparr>"
      using assms(2) r unfolding record_has_lookup_def by blast
    have "rt_refresh_token e' \<noteq> rt_refresh_token e"
      using l eu u' by auto
    then show "map_of (token_lookup c') (rt_refresh_token e')
              = Some \<lparr>tl_user_id = u', tl_expires_at = rt_expires_at e'\<rparr>"
      using l present(4) by (simp add: delete_conv')
  qed
qed

lemma invalidate_user_tokens_lookup_subset:
  "invalidate_user_tokens c u = Inr (b, c') \<Longrightarrow> map_of (token_lookup c') t = Some i
   \<Longrightarrow> map_of (token_lookup c) t = Some i"
  by (erule invalidate_user_tokens_cases) (auto simp: delete_conv' split: if_splits)

subsection \<open>Storing a token\<close>

lemma set_token_cases:
  assumes "set_token c u t d now cr = Inr ((), c')"
  obtains b c1 where "invalidate_user_tokens c u = Inr (b, c1)"
    "c' = c1\<lparr>refresh_tokens :=
                AList.update u \<lparr>rt_refresh_token = t, rt_expires_at = now + d, rt_created_at = cr\<rparr>
                  (refresh_tokens c1),
             token_lookup :=
                AList.update t \<lparr>tl_user_id = u, tl_expires_at = now + d\<rparr> (token_lookup c1)\<rparr>"
  using assms
  by (auto simp: set_token_def datetime_add_def Let_def split: sum.splits prod.splits if_splits)

lemma keys_distinct_set_token:
  assumes "set_token c u t d now cr = Inr ((), c')" and "keys_distinct c"
  shows "keys_distinct c'"
  using assms(1)
proof (cases rule: set_token_cases)
  case (1 b c1)
  have "keys_distinct c1"
    using 1(1) assms(2) by (rule keys_distinct_invalidate_user_tokens)
  then show ?thesis
    using 1(2) by (simp add: keys_distinct_def distinct_update)
qed

lemma lookup_has_record_set_token:
  assumes "set_token c u t d now cr = Inr ((), c')" and "lookup_has_record c"
  shows "lookup_has_record c'"
  using assms(1)
proof (cases rule: set_token_cases)
  case (1 b c1)
  have l1: "lookup_has_record c1"
    using 1(1) assms(2) by (rule lookup_has_record_invalidate_user_tokens)
  have gone: "map_of (refresh_tokens c1) u = None"
    using 1(1) by (rule invalidate_user_tokens_record_gone)
  show ?thesis
    unfolding lookup_has_record_def
  proof (intro allI impI)
    fix t' j assume a: "map_of (token_lookup c') t' = Some j"
    show "\<exists>e. map_of (refresh_tokens c') (tl_user_id j) = Some e
             \<and> rt_refresh_token e = t' \<and> rt_expires_at e = tl_expires_at j"
    proof (cases "t' = t")
      case True
      then have "j = \<lparr>tl_user_id = u, tl_expires_at = now + d\<rparr>"
        using a 1(2) by (simp add: update_conv')
      then show ?thesis using True 1(2) by (simp add: update_conv')
    next
      case False
      then have j: "map_of (token_lookup c1) t' = Some j"
        using a 1(2) by (simp add: update_conv')
      from l1 j obtain e' where e': "map_of (refresh_tokens c1) (tl_user_id j) = Some e'"
          "rt_refresh_token e' = t'" "rt_expires_at e' = tl_expires_at j"
        unfolding lookup_has_record_def by blast
      have "tl_user_id j \<noteq> u" using e'(1) gone by auto
      then show ?thesis using e' 1(2) by (simp add: update_conv')
    qed
  qed
qed

lemma record_has_lookup_set_token:
  assumes "set_token c u t d now cr = Inr ((), c')" and "record_has_lookup c"
    and "no_clash c (SetToken u t d now cr)"
  shows "record_has_lookup c'"
  using assms(1)
proof (cases rule: set_token_cases)
  case (1 b c1)
  have r1: "record_has_lookup c1"
    using 1(1) assms(2) by (rule record_has_lookup_invalidate_user_tokens)
  show ?thesis
    unfolding record_has_lookup_def
  proof (intro allI impI)
    fix u' e' assume a: "map_of (refresh_tokens c') u' = Some e'"
    show "map_of (token_lookup c') (rt_refresh_token e')
            = Some \<lparr>tl_user_id = u', tl_expires_at = rt_expires_at e'\<rparr>"
    proof (cases "u' = u")
      case True
      then have "e' = \<lparr>rt_refresh_token = t, rt_expires_at = now + d, rt_created_at = cr\<rparr>"
        using a 1(2) by (simp add: update_conv')
      then show ?thesis using True 1(2) by (simp add: update_conv')
    next
      case False
      then have r: "map_of (refresh_tokens c1) u' = Some e'"
        using a 1(2) by (simp add: update_conv')
      have l: "map_of (token_lookup c1) (rt_refresh_token e')
                = Some \<lparr>tl_user_id = u', tl_expires_at = rt_expires_at e'\<rparr>"
        using r1 r unfolding record_has_lookup_def by blast
      then have "map_of (token_lookup c) (rt_refresh_token e')
                = Some \<lparr>tl_user_id = u', tl_expires_at = rt_expires_at e'\<rparr>"
        using 1(1) by (rule_tac invalidate_user_tokens_lookup_subset)
      then have "rt_refresh_token e' \<noteq> t"
        using assms(3) False by auto
      then show ?thesis using l 1(2) by (simp add: update_conv')
    qed
  qed
qed

subsection \<open>Invalidating a token\<close>

lemma invalidate_token_absent:
  "map_of (token_lookup c) t = None \<Longrightarrow> invalidate_token c t = (False, c)"
  by (simp add: invalidate_token_def)

lemma keys_distinct_invalidate_token:
  "keys_distinct c \<Longrightarrow> keys_distinct (snd (invalidate_token c t))"
  by (cases "map_of (token_lookup c) t")
     (simp_all add: invalidate_token_absent invalidate_token_present keys_distinct_def distinct_delete)

lemma lookup_has_record_invalidate_token:
  assumes "lookup_has_record c"
  shows "lookup_has_record (snd (invalidate_token c t))"
proof (cases "map_of (token_lookup c) t")
  case None
  then show ?thesis using assms by (simp add: invalidate_token_absent)
next
  case (Some i)
  from assms Some obtain e where e: "map_of (refresh_tokens c) (tl_user_id i) = Some e"
      "rt_refresh_token e = t"
    unfolding lookup_has_record_def by blast
  show ?thesis
    unfolding lookup_has_record_def invalidate_token_present [OF Some] snd_conv
  proof (intro allI impI)
    fix t' j
    assume "map_of (token_lookup (c\<lparr>refresh_tokens := AList.delete (tl_user_id i) (refresh_tokens c),
              token_lookup := AList.delete t (token_lookup c)\<rparr>)) t' = Some j"
    then have t': "t' \<noteq> t" and j: "map_of (token_lookup c) t' = Some j"
      by (auto simp: delete_conv' split: if_splits)
    from assms j obtain e' where e': "map_of (refresh_tokens c) (tl_user_id j) = Some e'"
        "rt_refresh_token e' = t'" "rt_expires_at e' = tl_expires_at j"
      unfolding lookup_has_record_def by blast
    have "tl_user_id j \<noteq> tl_user_id i" using e e' t' by auto
    then show "\<exists>e. map_of (refresh_tokens (c\<lparr>refresh_tokens := AList.delete (tl_user_id i) (refresh_tokens c),
              token_lookup := AList.delete t (token_lookup c)\<rparr>)) (tl_user_id j) = Some e
             \<and> rt_refresh_token e = t' \<and> rt_expires_at e = tl_expires_at j"
      using e' by (simp add: delete_conv')
  qed
qed

lemma record_has_lookup_invalidate_token:
  assumes "record_has_lookup c"
  shows "record_has_lookup (snd (invalidate_token c t))"
proof (cases "map_of (token_lookup c) t")
  case None
  then show ?thesis using assms by (simp add: invalidate_token_absent)
next
  case (Some i)
  show ?thesis
    unfolding record_has_lookup_def invalidate_token_present [OF Some] snd_conv
  proof (intro allI impI)
    fix u' e'
    assume "map_of (refresh_tokens (c\<lparr>refresh_tokens := AList.delete (tl_user_id i) (refresh_tokens c),
              token_lookup := AList.delete t (token_lookup c)\<rparr>)) u' = Some e'"
    then have u': "u' \<noteq> tl_user_id i" and r: "map_of (refresh_tokens c) u' = Some e'"
      by (auto simp: delete_conv' split: if_splits)
    have l: "map_of (token_lookup c) (rt_refresh_token e')
              = Some \<lparr>tl_user_id = u', tl_expires_at = rt_expires_at e'\<rparr>"
      using assms r unfolding record_has_lookup_def by blast
    have "rt_refresh_token e' \<noteq> t" using l Some u' by auto
    then show "map_of (token_lookup (c\<lparr>refresh_tokens := AList.delete (tl_user_id i) (refresh_tokens c),
              token_lookup := AList.delete t (token_lookup c)\<rparr>)) (rt_refresh_token e')
              = Some \<lparr>tl_user_id = u', tl_expires_at = rt_expires_at e'\<rparr>"
      using l by (simp add: delete_conv')
  qed
qed

subsection \<open>Looking a token up\<close>

lemma get_user_id_by_token_state:
  "snd (get_user_id_by_token c t now) = c \<or>
   snd (get_user_id_by_token c t now) = snd (invalidate_token c t)"
  by (simp add: get_user_id_by_token_def split: option.splits)

subsection \<open>The sweep\<close>

lemma lookup_loop_counter:
  "fold (\<lambda>token (c', removed). (snd (invalidate_token c' token), removed + 1)) ts (c, r)
     = (fold (\<lambda>token c'. snd (invalidate_token c' token)) ts c, r + int (length ts))"
  by (induction ts arbitrary: c r) simp_all

lemma record_loop_counter:
  "fold (\<lambda>user_id (c', removed).
           (c'\<lparr>refresh_tokens := AList.delete user_id (refresh_tokens c')\<rparr>, removed + 1)) us (c, r)
     = (c\<lparr>refresh_tokens := fold AList.delete us (refresh_tokens c)\<rparr>, r + int (length us))"
  by (induction us arbitrary: c r) simp_all

lemma cleanup_expired_tokens_eq:
  "cleanup_expired_tokens c now =
     (let c1 = fold (\<lambda>token c'. snd (invalidate_token c' token))
                 (map fst (filter (\<lambda>(token, data). tl_expires_at data < now) (token_lookup c))) c
      in (int (length (filter (\<lambda>(token, data). tl_expires_at data < now) (token_lookup c)))
            + int (length (expired_records now (refresh_tokens c1))),
          c1\<lparr>refresh_tokens :=
                fold AList.delete (map fst (expired_records now (refresh_tokens c1))) (refresh_tokens c1)\<rparr>))"
  by (simp add: cleanup_expired_tokens_def lookup_loop_counter record_loop_counter
      expired_records_def Let_def)

text \<open>One round of the first loop, on a token whose lookup entry is expired.\<close>

lemma invalidate_expired_token:
  assumes kd: "keys_distinct c" and lhr: "lookup_has_record c"
    and t: "map_of (token_lookup c) t = Some i" and ex: "tl_expires_at i < now"
  shows "token_lookup (snd (invalidate_token c t)) = AList.delete t (token_lookup c)"
    and "live_records now (refresh_tokens (snd (invalidate_token c t)))
           = live_records now (refresh_tokens c)"
    and "length (expired_records now (refresh_tokens c))
           = Suc (length (expired_records now (refresh_tokens (snd (invalidate_token c t)))))"
proof -
  from lhr t obtain e where e: "map_of (refresh_tokens c) (tl_user_id i) = Some e"
      "rt_expires_at e = tl_expires_at i"
    unfolding lookup_has_record_def by blast
  have d: "distinct (map fst (refresh_tokens c))"
    using kd by (simp add: keys_distinct_def)
  show "token_lookup (snd (invalidate_token c t)) = AList.delete t (token_lookup c)"
    by (simp add: invalidate_token_present [OF t])
  show "live_records now (refresh_tokens (snd (invalidate_token c t)))
           = live_records now (refresh_tokens c)"
    unfolding live_records_def
    using filter_delete_keep [OF d e(1), of "\<lambda>(u, r). \<not> rt_expires_at r < now"] e(2) ex
    by (simp add: invalidate_token_present [OF t])
  show "length (expired_records now (refresh_tokens c))
           = Suc (length (expired_records now (refresh_tokens (snd (invalidate_token c t)))))"
    unfolding expired_records_def
    using filter_delete_count [OF d e(1), of "\<lambda>(u, r). rt_expires_at r < now"] e(2) ex
    by (simp add: invalidate_token_present [OF t])
qed

lemma lookup_loop:
  assumes "keys_distinct c" and "lookup_has_record c" and "distinct ts"
    and "\<forall>t\<in>set ts. \<exists>i. map_of (token_lookup c) t = Some i \<and> tl_expires_at i < now"
  shows "keys_distinct (fold (\<lambda>token c'. snd (invalidate_token c' token)) ts c)
       \<and> lookup_has_record (fold (\<lambda>token c'. snd (invalidate_token c' token)) ts c)
       \<and> token_lookup (fold (\<lambda>token c'. snd (invalidate_token c' token)) ts c)
           = filter (\<lambda>p. fst p \<notin> set ts) (token_lookup c)
       \<and> live_records now (refresh_tokens (fold (\<lambda>token c'. snd (invalidate_token c' token)) ts c))
           = live_records now (refresh_tokens c)
       \<and> length (expired_records now (refresh_tokens c))
           = length (expired_records now
               (refresh_tokens (fold (\<lambda>token c'. snd (invalidate_token c' token)) ts c)))
             + length ts"
  using assms
proof (induction ts arbitrary: c)
  case Nil
  then show ?case by simp
next
  case (Cons t ts)
  let ?c = "snd (invalidate_token c t)"
  from Cons.prems(4) obtain i where i: "map_of (token_lookup c) t = Some i" "tl_expires_at i < now"
    by auto
  note step = invalidate_expired_token [OF Cons.prems(1,2) i]
  have kd: "keys_distinct ?c" using Cons.prems(1) by (rule keys_distinct_invalidate_token)
  have lhr: "lookup_has_record ?c" using Cons.prems(2) by (rule lookup_has_record_invalidate_token)
  have dts: "distinct ts" and tn: "t \<notin> set ts" using Cons.prems(3) by auto
  have rest: "\<forall>t'\<in>set ts. \<exists>i. map_of (token_lookup ?c) t' = Some i \<and> tl_expires_at i < now"
  proof
    fix t' assume t': "t' \<in> set ts"
    then have "t' \<noteq> t" using tn by auto
    then have "map_of (token_lookup ?c) t' = map_of (token_lookup c) t'"
      by (simp add: step(1) delete_conv')
    then show "\<exists>i. map_of (token_lookup ?c) t' = Some i \<and> tl_expires_at i < now"
      using Cons.prems(4) t' by auto
  qed
  note ih = Cons.IH [OF kd lhr dts rest]
  have lk: "filter (\<lambda>p. fst p \<notin> set ts) (token_lookup ?c)
              = filter (\<lambda>p. fst p \<notin> set (t # ts)) (token_lookup c)"
    unfolding step(1) delete_as_filter filter_filter by (rule filter_cong) auto
  show ?case
    using ih step(2,3) lk by simp
qed

lemma map_of_filter_Some_iff:
  assumes "distinct (map fst al)"
  shows "map_of (filter P al) k = Some v \<longleftrightarrow> map_of al k = Some v \<and> P (k, v)"
proof -
  have "distinct (map fst (filter P al))"
    using assms by (rule distinct_map_filter)
  then have "map_of (filter P al) k = Some v \<longleftrightarrow> (k, v) \<in> set (filter P al)"
    by (rule map_of_eq_Some_iff)
  also have "\<dots> \<longleftrightarrow> (k, v) \<in> set al \<and> P (k, v)" by simp
  also have "\<dots> \<longleftrightarrow> map_of al k = Some v \<and> P (k, v)"
    using map_of_eq_Some_iff [OF assms, of k v] by simp
  finally show ?thesis .
qed

lemma sweep_result:
  assumes kd: "keys_distinct c" and lhr: "lookup_has_record c"
  shows "cleanup_expired_tokens c now =
           (int (length (expired_records now (refresh_tokens c))),
            c\<lparr>refresh_tokens := live_records now (refresh_tokens c),
              token_lookup := live_lookups now (token_lookup c)\<rparr>)"
proof -
  let ?ex = "\<lambda>(token, data). tl_expires_at data < now"
  let ?ts = "map fst (filter ?ex (token_lookup c))"
  let ?c1 = "fold (\<lambda>token c'. snd (invalidate_token c' token)) ?ts c"
  have dl: "distinct (map fst (token_lookup c))"
    using kd by (simp add: keys_distinct_def)
  have dts: "distinct ?ts"
    using dl by (rule distinct_map_filter)
  have ex: "\<forall>t\<in>set ?ts. \<exists>i. map_of (token_lookup c) t = Some i \<and> tl_expires_at i < now"
  proof
    fix t assume "t \<in> set ?ts"
    then obtain i where "(t, i) \<in> set (token_lookup c)" "tl_expires_at i < now" by auto
    then show "\<exists>i. map_of (token_lookup c) t = Some i \<and> tl_expires_at i < now"
      using dl by (auto simp: map_of_eq_Some_iff)
  qed
  note loop = lookup_loop [OF kd lhr dts ex]
  have kd1: "distinct (map fst (refresh_tokens ?c1))"
    using loop by (simp add: keys_distinct_def)
  have lk: "token_lookup ?c1 = live_lookups now (token_lookup c)"
  proof -
    have "token_lookup ?c1 = filter (\<lambda>p. fst p \<notin> set ?ts) (token_lookup c)"
      using loop by simp
    also have "\<dots> = filter (\<lambda>p. \<not> ?ex p) (token_lookup c)"
    proof (rule filter_cong [OF refl])
      fix p assume "p \<in> set (token_lookup c)"
      from key_selected_iff [OF dl this, of ?ex]
      show "(fst p \<notin> set ?ts) = (\<not> ?ex p)" by blast
    qed
    also have "\<dots> = live_lookups now (token_lookup c)"
      by (simp add: live_lookups_def case_prod_unfold)
    finally show ?thesis .
  qed
  have rf: "fold AList.delete (map fst (expired_records now (refresh_tokens ?c1))) (refresh_tokens ?c1)
              = live_records now (refresh_tokens c)"
  proof -
    have "fold AList.delete (map fst (expired_records now (refresh_tokens ?c1))) (refresh_tokens ?c1)
            = live_records now (refresh_tokens ?c1)"
      unfolding expired_records_def live_records_def
      using delete_selected_keys [OF kd1, of "\<lambda>(u, r). rt_expires_at r < now"]
      by (simp add: case_prod_unfold)
    then show ?thesis using loop by simp
  qed
  have cnt: "int (length (filter ?ex (token_lookup c)))
               + int (length (expired_records now (refresh_tokens ?c1)))
             = int (length (expired_records now (refresh_tokens c)))"
    using loop by simp
  have st: "?c1\<lparr>refresh_tokens := live_records now (refresh_tokens c)\<rparr>
             = c\<lparr>refresh_tokens := live_records now (refresh_tokens c),
                 token_lookup := live_lookups now (token_lookup c)\<rparr>"
    by (rule TokenCache.equality) (simp_all add: lk)
  show ?thesis
    unfolding cleanup_expired_tokens_eq Let_def rf cnt st ..
qed

lemma keys_distinct_cleanup:
  assumes "keys_distinct c" and "lookup_has_record c"
  shows "keys_distinct (snd (cleanup_expired_tokens c now))"
  using assms(1)
  by (simp add: sweep_result [OF assms] keys_distinct_def live_records_def live_lookups_def
      distinct_map_filter)

lemma lookup_has_record_cleanup:
  assumes kd: "keys_distinct c" and lhr: "lookup_has_record c"
  shows "lookup_has_record (snd (cleanup_expired_tokens c now))"
proof -
  have dl: "distinct (map fst (token_lookup c))" and dr: "distinct (map fst (refresh_tokens c))"
    using kd by (simp_all add: keys_distinct_def)
  show ?thesis
    unfolding sweep_result [OF assms] snd_conv lookup_has_record_def
  proof (intro allI impI)
    fix t i
    assume "map_of (token_lookup (c\<lparr>refresh_tokens := live_records now (refresh_tokens c),
              token_lookup := live_lookups now (token_lookup c)\<rparr>)) t = Some i"
    then have i: "map_of (token_lookup c) t = Some i" "\<not> tl_expires_at i < now"
      by (simp_all add: live_lookups_def map_of_filter_Some_iff [OF dl])
    from lhr i(1) obtain e where e: "map_of (refresh_tokens c) (tl_user_id i) = Some e"
        "rt_refresh_token e = t" "rt_expires_at e = tl_expires_at i"
      unfolding lookup_has_record_def by blast
    have "map_of (live_records now (refresh_tokens c)) (tl_user_id i) = Some e"
      using e i(2) by (simp add: live_records_def map_of_filter_Some_iff [OF dr])
    then show "\<exists>e. map_of (refresh_tokens (c\<lparr>refresh_tokens := live_records now (refresh_tokens c),
              token_lookup := live_lookups now (token_lookup c)\<rparr>)) (tl_user_id i) = Some e
             \<and> rt_refresh_token e = t \<and> rt_expires_at e = tl_expires_at i"
      using e by simp
  qed
qed

lemma record_has_lookup_cleanup:
  assumes kd: "keys_distinct c" and lhr: "lookup_has_record c" and rhl: "record_has_lookup c"
  shows "record_has_lookup (snd (cleanup_expired_tokens c now))"
proof -
  have dl: "distinct (map fst (token_lookup c))" and dr: "distinct (map fst (refresh_tokens c))"
    using kd by (simp_all add: keys_distinct_def)
  show ?thesis
    unfolding sweep_result [OF kd lhr] snd_conv record_has_lookup_def
  proof (intro allI impI)
    fix u e
    assume "map_of (refresh_tokens (c\<lparr>refresh_tokens := live_records now (refresh_tokens c),
              token_lookup := live_lookups now (token_lookup c)\<rparr>)) u = Some e"
    then have e: "map_of (refresh_tokens c) u = Some e" "\<not> rt_expires_at e < now"
      by (simp_all add: live_records_def map_of_filter_Some_iff [OF dr])
    have "map_of (token_lookup c) (rt_refresh_token e)
            = Some \<lparr>tl_user_id = u, tl_expires_at = rt_expires_at e\<rparr>"
      using rhl e(1) unfolding record_has_lookup_def by blast
    then have "map_of (live_lookups now (token_lookup c)) (rt_refresh_token e)
            = Some \<lparr>tl_user_id = u, tl_expires_at = rt_expires_at e\<rparr>"
      using e(2) by (simp add: live_lookups_def map_of_filter_Some_iff [OF dl])
    then show "map_of (token_lookup (c\<lparr>refresh_tokens := live_records now (refresh_tokens c),
              token_lookup := live_lookups now (token_lookup c)\<rparr>)) (rt_refresh_token e)
            = Some \<lparr>tl_user_id = u, tl_expires_at = rt_expires_at e\<rparr>"
      by simp
  qed
qed

subsection \<open>Any call, any sequence\<close>

lemma apply_op_sound:
  assumes "keys_distinct c" and "lookup_has_record c"
  shows "keys_distinct (apply_op c op) \<and> lookup_has_record (apply_op c op)"
proof (cases op)
  case (SetToken u t d now cr)
  show ?thesis
  proof (cases "set_token c u t d now cr")
    case (Inl e)
    then show ?thesis using assms SetToken by simp
  next
    case (Inr r)
    then have r: "set_token c u t d now cr = Inr ((), snd r)" by (cases r) simp
    show ?thesis
      using keys_distinct_set_token [OF r assms(1)] lookup_has_record_set_token [OF r assms(2)]
        SetToken r by simp
  qed
next
  case (GetUserIdByToken t now)
  show ?thesis
    using get_user_id_by_token_state [of c t now] assms GetUserIdByToken
      keys_distinct_invalidate_token [OF assms(1), of t]
      lookup_has_record_invalidate_token [OF assms(2), of t]
    by auto
next
  case (DeleteToken u)
  show ?thesis
  proof (cases "invalidate_user_tokens c u")
    case (Inl e)
    then show ?thesis using assms DeleteToken by (simp add: delete_token_def)
  next
    case (Inr r)
    then have r: "invalidate_user_tokens c u = Inr (fst r, snd r)" by simp
    show ?thesis
      using keys_distinct_invalidate_user_tokens [OF r assms(1)]
        lookup_has_record_invalidate_user_tokens [OF r assms(2)] DeleteToken Inr
      by (simp add: delete_token_def case_prod_unfold)
  qed
next
  case (CleanupExpiredTokens now)
  then show ?thesis
    using keys_distinct_cleanup [OF assms] lookup_has_record_cleanup [OF assms] by simp
qed

lemma apply_op_mirror:
  assumes "keys_distinct c" and "lookup_has_record c" and "record_has_lookup c"
    and "no_clash c op"
  shows "record_has_lookup (apply_op c op)"
proof (cases op)
  case (SetToken u t d now cr)
  show ?thesis
  proof (cases "set_token c u t d now cr")
    case (Inl e)
    then show ?thesis using assms SetToken by simp
  next
    case (Inr r)
    then have r: "set_token c u t d now cr = Inr ((), snd r)" by (cases r) simp
    show ?thesis
      using record_has_lookup_set_token [OF r assms(3)] assms(4) SetToken r by simp
  qed
next
  case (GetUserIdByToken t now)
  show ?thesis
    using get_user_id_by_token_state [of c t now] assms(3) GetUserIdByToken
      record_has_lookup_invalidate_token [OF assms(3), of t]
    by auto
next
  case (DeleteToken u)
  show ?thesis
  proof (cases "invalidate_user_tokens c u")
    case (Inl e)
    then show ?thesis using assms DeleteToken by (simp add: delete_token_def)
  next
    case (Inr r)
    then have r: "invalidate_user_tokens c u = Inr (fst r, snd r)" by simp
    show ?thesis
      using record_has_lookup_invalidate_user_tokens [OF r assms(3)] DeleteToken Inr
      by (simp add: delete_token_def case_prod_unfold)
  qed
next
  case (CleanupExpiredTokens now)
  then show ?thesis
    using record_has_lookup_cleanup [OF assms(1,2,3)] by simp
qed

lemma run_ops_sound:
  "keys_distinct c \<Longrightarrow> lookup_has_record c \<Longrightarrow>
   keys_distinct (run_ops c ops) \<and> lookup_has_record (run_ops c ops)"
  unfolding run_ops_def
proof (induction ops arbitrary: c)
  case Nil
  then show ?case by simp
next
  case (Cons op ops)
  from apply_op_sound [OF Cons.prems, of op] Cons.IH [of "apply_op c op"]
  show ?case by simp
qed

lemma run_ops_mirror:
  "keys_distinct c \<Longrightarrow> lookup_has_record c \<Longrightarrow> record_has_lookup c \<Longrightarrow> clash_free c ops \<Longrightarrow>
   record_has_lookup (run_ops c ops)"
  unfolding run_ops_def
proof (induction ops arbitrary: c)
  case Nil
  then show ?case by simp
next
  case (Cons op ops)
  have nc: "no_clash c op" and cf: "clash_free (apply_op c op) ops"
    using Cons.prems(4) by simp_all
  from apply_op_sound [OF Cons.prems(1,2), of op]
    apply_op_mirror [OF Cons.prems(1,2,3) nc] cf Cons.IH [of "apply_op c op"]
  show ?case by simp
qed

lemma init_cache_sound:
  "keys_distinct init_cache" "lookup_has_record init_cache" "record_has_lookup init_cache"
  by (simp_all add: init_cache_def keys_distinct_def lookup_has_record_def record_has_lookup_def)

subsection \<open>From the maps back to the lists\<close>

lemma filter_single:
  assumes "distinct xs" and "x \<in> set xs" and "P x" and "\<forall>y\<in>set xs. P y \<longrightarrow> y = x"
  shows "filter P xs = [x]"
  using assms
proof (induction xs)
  case Nil
  then show ?case by simp
next
  case (Cons a xs)
  have d: "distinct xs" and a: "a \<notin> set xs" using Cons.prems(1) by simp_all
  have only: "\<forall>y\<in>set xs. P y \<longrightarrow> y = x" using Cons.prems(4) by simp
  show ?case
  proof (cases "a = x")
    case True
    have "\<forall>y\<in>set xs. \<not> P y"
    proof
      fix y assume y: "y \<in> set xs"
      show "\<not> P y"
      proof
        assume "P y"
        then have "y = x" using only y by blast
        then show False using y a True by simp
      qed
    qed
    then have "filter P xs = []" by (simp only: filter_empty_conv)
    then show ?thesis using True Cons.prems(3) by simp
  next
    case False
    have "\<not> P a"
    proof
      assume "P a"
      then have "a = x" using Cons.prems(4) by simp
      then show False using False by simp
    qed
    moreover have "x \<in> set xs" using Cons.prems(2) False by simp
    then have "filter P xs = [x]"
      using Cons.IH [OF d _ Cons.prems(3) only] by simp
    ultimately show ?thesis by simp
  qed
qed

lemma mirror_from_maps:
  assumes kd: "keys_distinct c" and lhr: "lookup_has_record c" and rhl: "record_has_lookup c"
  shows "mirror c"
proof -
  have dl: "distinct (map fst (token_lookup c))" and dr: "distinct (map fst (refresh_tokens c))"
    using kd by (simp_all add: keys_distinct_def)
  have "index_sound c"
    unfolding index_sound_def list_all_iff
  proof (rule ballI)
    fix p assume "p \<in> set (token_lookup c)"
    then have "map_of (token_lookup c) (fst p) = Some (snd p)"
      using dl by (simp add: map_of_eq_Some_iff)
    with lhr obtain e where "map_of (refresh_tokens c) (tl_user_id (snd p)) = Some e"
        "rt_refresh_token e = fst p" "rt_expires_at e = tl_expires_at (snd p)"
      unfolding lookup_has_record_def by blast
    then show "case p of (token, info) \<Rightarrow>
            (case map_of (refresh_tokens c) (tl_user_id info) of
               None \<Rightarrow> False
             | Some e \<Rightarrow> rt_refresh_token e = token \<and> rt_expires_at e = tl_expires_at info)"
      by (simp add: case_prod_unfold)
  qed
  moreover have "records_indexed c"
    unfolding records_indexed_def list_all_iff
  proof (rule ballI)
    fix p assume "p \<in> set (refresh_tokens c)"
    then have r: "map_of (refresh_tokens c) (fst p) = Some (snd p)"
      using dr by (simp add: map_of_eq_Some_iff)
    let ?x = "(rt_refresh_token (snd p), \<lparr>tl_user_id = fst p, tl_expires_at = rt_expires_at (snd p)\<rparr>)"
    have l: "map_of (token_lookup c) (fst ?x) = Some (snd ?x)"
      using rhl r unfolding record_has_lookup_def by simp
    then have x: "?x \<in> set (token_lookup c)"
      by (metis map_of_SomeD prod.collapse)
    have only: "\<forall>y\<in>set (token_lookup c). tl_user_id (snd y) = fst p \<longrightarrow> y = ?x"
    proof (intro ballI impI)
      fix y assume y: "y \<in> set (token_lookup c)" "tl_user_id (snd y) = fst p"
      then have my: "map_of (token_lookup c) (fst y) = Some (snd y)"
        using dl by (simp add: map_of_eq_Some_iff)
      with lhr obtain e where "map_of (refresh_tokens c) (tl_user_id (snd y)) = Some e"
          "rt_refresh_token e = fst y"
        unfolding lookup_has_record_def by blast
      then have "fst y = rt_refresh_token (snd p)" using r y(2) by simp
      then have "snd y = snd ?x" using my l by simp
      then show "y = ?x" using \<open>fst y = rt_refresh_token (snd p)\<close> by (simp add: prod_eq_iff)
    qed
    have "filter (\<lambda>y. tl_user_id (snd y) = fst p) (token_lookup c) = [?x]"
      using distinct_map [THEN iffD1, OF dl, THEN conjunct1] x _ only
      by (rule filter_single) simp
    then show "case p of (u, e) \<Rightarrow>
            filter (\<lambda>(token, info). tl_user_id info = u) (token_lookup c) =
              [(rt_refresh_token e, \<lparr>tl_user_id = u, tl_expires_at = rt_expires_at e\<rparr>)]"
      by (simp add: case_prod_unfold)
  qed
  ultimately show ?thesis by (simp add: mirror_def)
qed

lemmas cache_eval =
  run_ops_def init_cache_def set_token_def datetime_add_def datetime_min_def datetime_max_def
  invalidate_user_tokens_def invalidate_token_def
  get_user_id_by_token_def delete_token_def cleanup_expired_tokens_def py_in_def Let_def



subsection \<open>Expired entries of mirrored maps\<close>

lemma record_has_lookup_loop:
  "record_has_lookup c \<Longrightarrow>
   record_has_lookup (fold (\<lambda>token c'. snd (invalidate_token c' token)) ts c)"
  by (induction ts arbitrary: c) (simp_all add: record_has_lookup_invalidate_token)

lemma mirrored_expired_counts:
  assumes kd: "keys_distinct c" and lhr: "lookup_has_record c" and rhl: "record_has_lookup c"
  shows "length (expired_lookups now (token_lookup c))
           = length (expired_records now (refresh_tokens c))"
proof -
  let ?ex = "\<lambda>(token, data). tl_expires_at data < now"
  let ?ts = "map fst (filter ?ex (token_lookup c))"
  let ?c1 = "fold (\<lambda>token c'. snd (invalidate_token c' token)) ?ts c"
  have dl: "distinct (map fst (token_lookup c))"
    using kd by (simp add: keys_distinct_def)
  have dts: "distinct ?ts"
    using dl by (rule distinct_map_filter)
  have ex: "\<forall>t\<in>set ?ts. \<exists>i. map_of (token_lookup c) t = Some i \<and> tl_expires_at i < now"
  proof
    fix t assume "t \<in> set ?ts"
    then obtain i where "(t, i) \<in> set (token_lookup c)" "tl_expires_at i < now" by auto
    then show "\<exists>i. map_of (token_lookup c) t = Some i \<and> tl_expires_at i < now"
      using dl by (auto simp: map_of_eq_Some_iff)
  qed
  note loop = lookup_loop [OF kd lhr dts ex]
  have lk: "token_lookup ?c1 = filter (\<lambda>p. \<not> ?ex p) (token_lookup c)"
  proof -
    have "token_lookup ?c1 = filter (\<lambda>p. fst p \<notin> set ?ts) (token_lookup c)"
      using loop by simp
    also have "\<dots> = filter (\<lambda>p. \<not> ?ex p) (token_lookup c)"
    proof (rule filter_cong [OF refl])
      fix p assume "p \<in> set (token_lookup c)"
      from key_selected_iff [OF dl this, of ?ex]
      show "(fst p \<notin> set ?ts) = (\<not> ?ex p)" by blast
    qed
    finally show ?thesis .
  qed
  have rhl1: "record_has_lookup ?c1"
    using rhl by (rule record_has_lookup_loop)
  have none: "expired_records now (refresh_tokens ?c1) = []"
    unfolding expired_records_def filter_empty_conv
  proof
    fix p assume p: "p \<in> set (refresh_tokens ?c1)"
    have d1: "distinct (map fst (refresh_tokens ?c1))"
      using loop by (simp add: keys_distinct_def)
    have "map_of (refresh_tokens ?c1) (fst p) = Some (snd p)"
      using d1 p by (simp add: map_of_eq_Some_iff)
    then have "map_of (token_lookup ?c1) (rt_refresh_token (snd p))
                 = Some \<lparr>tl_user_id = fst p, tl_expires_at = rt_expires_at (snd p)\<rparr>"
      using rhl1 unfolding record_has_lookup_def by blast
    then have "(rt_refresh_token (snd p), \<lparr>tl_user_id = fst p, tl_expires_at = rt_expires_at (snd p)\<rparr>)
                 \<in> set (token_lookup ?c1)"
      by (rule map_of_SomeD)
    then have "\<not> rt_expires_at (snd p) < now"
      unfolding lk by simp
    then show "\<not> (case p of (u, r) \<Rightarrow> rt_expires_at r < now)"
      by (simp add: case_prod_unfold)
  qed
  have "length (expired_records now (refresh_tokens c)) = length ?ts"
    using loop none by simp
  then show ?thesis by (simp add: expired_lookups_def)
qed

lemma user_indexed_of_record_has_lookup:
  "record_has_lookup c \<Longrightarrow> user_indexed c u"
  by (auto simp: record_has_lookup_def user_indexed_def py_in_def split: option.splits)

section \<open>Claims about the cache\<close>







text \<open>
  Claim C3 (mirror invariant), as amended. Started from the empty cache, every sequence of
  \<^verbatim>\<open>set_token\<close>, \<^verbatim>\<open>get_user_id_by_token\<close>, \<^verbatim>\<open>delete_token\<close> and
  \<^verbatim>\<open>cleanup_expired_tokens\<close> calls in which no \<^verbatim>\<open>set_token\<close> registers a token string
  that is at that moment the lookup entry of another user leaves the two maps mirrors of
  each other: every lookup entry has the record of its user with the same token and expiry,
  and every record has exactly one lookup entry, the one under its token.
\<close>

theorem mirror_of_clash_free_runs:
  "clash_free init_cache ops \<Longrightarrow> mirror (run_ops init_cache ops)"
  using run_ops_sound [OF init_cache_sound(1,2), of ops]
    run_ops_mirror [OF init_cache_sound, of ops]
  by (simp add: mirror_from_maps)

theorem mirror_of_clash_free_runs_witness:
  "clash_free init_cache
     [SetToken 1 ''a'' 10 0 0, SetToken 2 ''b'' 10 1 1, SetToken 1 ''c'' (-5) 2 2,
      GetUserIdByToken ''c'' 3, DeleteToken 2, CleanupExpiredTokens 4]
   \<and> mirror (run_ops init_cache
     [SetToken 1 ''a'' 10 0 0, SetToken 2 ''b'' 10 1 1, SetToken 1 ''c'' (-5) 2 2,
      GetUserIdByToken ''c'' 3, DeleteToken 2, CleanupExpiredTokens 4])"
proof -
  have h: "clash_free init_cache
     [SetToken 1 ''a'' 10 0 0, SetToken 2 ''b'' 10 1 1, SetToken 1 ''c'' (-5) 2 2,
      GetUserIdByToken ''c'' 3, DeleteToken 2, CleanupExpiredTokens 4]"
    by (simp add: cache_eval)
  show ?thesis using h mirror_of_clash_free_runs [OF h] by blast
qed

text \<open>
  The claim as stated, for every sequence of calls, fails: \<^verbatim>\<open>set_token\<close> takes any string,
  and the same string stored for user 1 and then for user 2 leaves the record of user 1
  without a lookup entry (the lookup entry of the string now names user 2).
\<close>

theorem mirror_counterexample:
  "\<not> mirror (run_ops init_cache [SetToken 1 ''t'' 10 0 0, SetToken 2 ''t'' 10 0 0])"
  by (simp add: cache_eval mirror_def index_sound_def records_indexed_def)

text \<open>
  Claim C4 (sweep completeness). In every state the cache can reach from the empty cache,
  one call of \<^verbatim>\<open>cleanup_expired_tokens\<close> at clock reading \<open>now\<close> returns the number of
  records with \<^verbatim>\<open>expires_at < now\<close>, and leaves in each dict exactly the entries with
  \<^verbatim>\<open>expires_at >= now\<close>, unchanged and in their order. When no call has registered a
  token of another user (the states in which the maps mirror each other), the lookup has
  as many expired entries as there are expired records, so the count is that of the entries
  removed from either dict.
\<close>

theorem sweep_completeness:
  "cleanup_expired_tokens (run_ops init_cache ops) now =
     (int (length (expired_records now (refresh_tokens (run_ops init_cache ops)))),
      (run_ops init_cache ops)
        \<lparr>refresh_tokens := live_records now (refresh_tokens (run_ops init_cache ops)),
         token_lookup := live_lookups now (token_lookup (run_ops init_cache ops))\<rparr>)
   \<and> (clash_free init_cache ops \<longrightarrow>
        length (expired_lookups now (token_lookup (run_ops init_cache ops)))
          = length (expired_records now (refresh_tokens (run_ops init_cache ops))))"
  using run_ops_sound [OF init_cache_sound(1,2), of ops]
    run_ops_mirror [OF init_cache_sound, of ops]
  by (simp add: sweep_result mirrored_expired_counts)

theorem sweep_completeness_witness:
  "cleanup_expired_tokens
     (run_ops init_cache [SetToken 1 ''a'' 10 0 0, SetToken 2 ''b'' 2 1 1, SetToken 3 ''c'' 3 1 1]) 5
   = (2, \<lparr>refresh_tokens = [(1, \<lparr>rt_refresh_token = ''a'', rt_expires_at = 10, rt_created_at = 0\<rparr>)],
          token_lookup = [(''a'', \<lparr>tl_user_id = 1, tl_expires_at = 10\<rparr>)]\<rparr>)
   \<and> clash_free init_cache [SetToken 1 ''a'' 10 0 0, SetToken 2 ''b'' 2 1 1, SetToken 3 ''c'' 3 1 1]
   \<and> length (expired_lookups 5 (token_lookup
        (run_ops init_cache [SetToken 1 ''a'' 10 0 0, SetToken 2 ''b'' 2 1 1, SetToken 3 ''c'' 3 1 1])))
      = 2"
proof -
  have h: "clash_free init_cache [SetToken 1 ''a'' 10 0 0, SetToken 2 ''b'' 2 1 1, SetToken 3 ''c'' 3 1 1]"
    by (simp add: cache_eval)
  from sweep_completeness [of "[SetToken 1 ''a'' 10 0 0, SetToken 2 ''b'' 2 1 1, SetToken 3 ''c'' 3 1 1]" 5] h
  show ?thesis
    by (simp add: cache_eval expired_records_def live_records_def live_lookups_def)
qed

section \<open>Properties of the endpoints\<close>

subsection \<open>Evaluation\<close>

lemmas py_eval =
  ascii_def py_int_def to_ascii_def long_from_string_def exceeds_max_str_digits_def
  Py_ISSPACE_def is_digit_def digit_val_def py_digits_def py_get_def Let_def

lemmas api_eval =
  refresh_token_def verify_token_def get_current_user_def login_def login_checks_def
  login_query_def user_query_def User_columns_def
  result_error_def result_success_def demo_env_def demo_user_def
  credentials_exception_def authenticate_value_def
  no_claims_def role_scopes_def demo_refresh_claims_def demo_access_claims_def

lemma digits_of_small: "n < 10 \<Longrightarrow> digits_of n = [48 + n]"
  by (subst digits_of.simps) simp

lemma py_str_small: "0 \<le> i \<Longrightarrow> i < 10 \<Longrightarrow> py_str ip i = Inr [48 + nat i]"
  by (simp add: py_str_def exceeds_max_str_digits_def digits_of_small Let_def)

text \<open>
  The digit limit: a run of more than 4300 digits (more than the configured limit) is no
  integer literal.
\<close>

lemma py_int_over_limit:
  assumes "640 < n" and "0 < int_max_str_digits ip" and "int_max_str_digits ip < n"
  shows "py_int ip (replicate n 49) = None"
proof -
  obtain m where n: "n = Suc m" using assms(1) by (cases n) auto
  have a: "to_ascii ip (replicate n 49) = replicate n 49"
    by (simp add: to_ascii_def list_all_iff)
  have d: "dropWhile Py_ISSPACE (replicate k 49) = replicate k 49" for k
    by (cases k) (simp_all add: Py_ISSPACE_def)
  have f: "filter is_digit (replicate k 49) = replicate k 49" for k
    by (simp add: is_digit_def)
  have "long_from_string ip (replicate n 49) = None"
    unfolding long_from_string_def d rev_replicate
    using assms f [of n] by (simp add: n exceeds_max_str_digits_def Let_def)
  then show ?thesis by (simp add: py_int_def a)
qed

text \<open>
  \<^verbatim>\<open>int\<close> on strings with characters outside the digits: a file separator (28) is no
  whitespace for \<^verbatim>\<open>int\<close>, a no-break space (160) is, and an Arabic-Indic seven (1639) is
  a digit.
\<close>

lemma py_int_examples:
  "py_int (demo_env decode user) [28, 55] = None"
  "py_int (demo_env decode user) [160, 55] = Some 7"
  "py_int (demo_env decode user) [32, 45, 1639, 95, 48, 10] = Some (- 70)"
  "py_int (demo_env decode user) [55, 178] = None"
  by (simp_all add: py_eval demo_env_def unicode_whitespace_def unicode_decimal_zeros_def)

text \<open>
  The tokens of the closed instances are those that \<^verbatim>\<open>create_refresh_token\<close> and
  \<^verbatim>\<open>login\<close>'s call of \<^verbatim>\<open>create_access_token\<close> mint at clock reading 0.
\<close>

lemma demo_refresh_claims_minted:
  "0 \<le> uid \<Longrightarrow> uid < 10 \<Longrightarrow> refresh_claims ev uid None 0 = Inr (demo_refresh_claims uid)"
  by (simp add: refresh_claims_def datetime_add_def datetime_min_def datetime_max_def
      timedelta_days_def py_str_small digits_of_small demo_refresh_claims_def)

lemma demo_access_claims_minted:
  "access_claims (no_claims\<lparr>sub := Some (ascii ''user:'' @ digits_of (nat (user_id u)))\<rparr>)
     (Some (timedelta_minutes 30)) (Some (role_scopes (user_role u))) 0
   = Inr (demo_access_claims u)"
  by (simp add: access_claims_def datetime_add_def datetime_min_def datetime_max_def
      timedelta_minutes_def no_claims_def role_scopes_def demo_access_claims_def)

subsection \<open>The queries\<close>

lemma login_query_raises: "login_query ev username = Inl AttributeError"
  by (simp add: login_query_def User_columns_def)

lemma user_query_raises: "user_query ev uid = Inl AttributeError"
  by (simp add: user_query_def User_columns_def)

lemma login_raises: "login ev c username pwd a b d e = Inl AttributeError"
  by (simp add: login_def login_query_raises)

subsection \<open>Refreshing\<close>

lemma refresh_token_unknown:
  assumes "map_of (token_lookup c) t = None"
  shows "refresh_token ev c t now now_access = (result_error ''Invalid refresh token'' 400, c)"
proof (cases "jwt_decode ev t")
  case None
  then show ?thesis by (simp add: refresh_token_def verify_token_def)
next
  case (Some payload)
  show ?thesis
  proof (cases "type payload = Some ''refresh''")
    case True
    then show ?thesis
      using Some assms by (simp add: refresh_token_def verify_token_def get_user_id_by_token_def)
  next
    case False
    then show ?thesis
      using Some by (simp add: refresh_token_def verify_token_def)
  qed
qed

lemma verify_token_Some:
  assumes "verify_token ev c t now = Inr (Some payload, c')" and "type payload = Some ''refresh''"
  shows "jwt_decode ev t = Some payload
       \<and> (\<exists>uid. get_user_id_by_token c t now = (Some uid, c') \<and> uid \<noteq> 0
              \<and> py_int ev (last (py_split 58 (py_get (sub payload) (ascii '':'')))) = Some uid)"
proof -
  from assms(1) obtain p where p: "jwt_decode ev t = Some p"
    by (cases "jwt_decode ev t") (simp_all add: verify_token_def)
  show ?thesis
  proof (cases "type p = Some ''refresh''")
    case True
    with assms(1) p show ?thesis
      by (auto simp: verify_token_def split: prod.splits option.splits if_splits)
  next
    case False
    with assms p show ?thesis by (auto simp: verify_token_def)
  qed
qed

text \<open>
  Whatever the token, \<^verbatim>\<open>refresh_token\<close> returns the error result
  \<^verbatim>\<open>Invalid refresh token\<close>: a token that passes \<^verbatim>\<open>verify_token\<close> as a refresh token
  carries a non-zero id and reaches the query, whose \<^verbatim>\<open>AttributeError\<close> the handler turns
  into that result.
\<close>

lemma refresh_token_rejects:
  "fst (refresh_token ev c t now now_access) = result_error ''Invalid refresh token'' 400"
proof (cases "verify_token ev c t now")
  case (Inl e)
  then show ?thesis by (simp add: refresh_token_def)
next
  case (Inr r)
  obtain po c' where r: "r = (po, c')" by (cases r)
  show ?thesis
  proof (cases po)
    case None
    then show ?thesis using Inr r by (simp add: refresh_token_def)
  next
    case (Some payload)
    show ?thesis
    proof (cases "type payload = Some ''refresh''")
      case False
      then show ?thesis using Inr r Some by (simp add: refresh_token_def)
    next
      case True
      have "verify_token ev c t now = Inr (Some payload, c')"
        using Inr r Some by simp
      from verify_token_Some [OF this True] obtain uid where
        "py_int ev (last (py_split 58 (py_get (sub payload) (ascii '':'')))) = Some uid" "uid \<noteq> 0"
        by blast
      then show ?thesis
        using Inr r Some True by (simp add: refresh_token_def user_query_raises)
    qed
  qed
qed

lemma delete_token_held:
  assumes "map_of (refresh_tokens c) P = Some e" and "rt_refresh_token e = t"
    and "py_in t (token_lookup c)"
  shows "\<exists>c'. delete_token c P = Inr (True, c') \<and> map_of (token_lookup c') t = None"
  using assms
  by (simp add: delete_token_def invalidate_user_tokens_def Let_def delete_conv')

lemma verify_token_unknown:
  assumes "map_of (token_lookup c) t = None" and "verify_token ev c t now = Inr (Some payload, c'')"
  shows "type payload \<noteq> Some ''refresh''"
proof
  assume "type payload = Some ''refresh''"
  from verify_token_Some [OF assms(2) this] assms(1) show False
    by (auto simp: get_user_id_by_token_def)
qed

lemma role_scopes_sets:
  "set (role_scopes ''admin'') = {''admin'', ''manager'', ''user''}"
  "set (role_scopes ''manager'') = {''manager'', ''user''}"
  "role \<noteq> ''admin'' \<Longrightarrow> role \<noteq> ''manager'' \<Longrightarrow> role_scopes role = [''user'']"
  by (auto simp: role_scopes_def)

section \<open>Claims about the endpoints\<close>

text \<open>
  Claim C1 (revocation precedence). If a user holds a refresh token \<open>t\<close> in the cache, then
  \<^verbatim>\<open>delete_token\<close> for that user returns \<^verbatim>\<open>True\<close>; afterwards
  \<^verbatim>\<open>get_user_id_by_token\<close> returns \<^verbatim>\<open>None\<close> for \<open>t\<close>, \<^verbatim>\<open>verify_token\<close> does not return
  it as a refresh token, and \<^verbatim>\<open>refresh_token\<close> gives the error result
  \<^verbatim>\<open>Invalid refresh token\<close> (code 400, no data), whatever the codec says of \<open>t\<close>. More
  generally \<^verbatim>\<open>verify_token\<close> returns the claims of a refresh token only if
  \<^verbatim>\<open>get_user_id_by_token\<close> returns the id that the subject claim carries, and
  \<^verbatim>\<open>refresh_token\<close> gives the error result whenever it does not. (The query that
  follows the cross-check raises, so \<^verbatim>\<open>refresh_token\<close> gives this result for the
  tokens that pass it as well.)
\<close>

theorem revocation_precedence:
  "(map_of (refresh_tokens c) P = Some e \<and> rt_refresh_token e = t \<and> py_in t (token_lookup c)
      \<longrightarrow> (\<exists>c'. delete_token c P = Inr (True, c')
                \<and> fst (get_user_id_by_token c' t now) = None
                \<and> (\<forall>payload c''. verify_token ev c' t now = Inr (Some payload, c'')
                       \<longrightarrow> type payload \<noteq> Some ''refresh'')
                \<and> refresh_token ev c' t now now_access
                    = (result_error ''Invalid refresh token'' 400, c')))
   \<and> (verify_token ev c t now = Inr (Some payload, c1) \<and> type payload = Some ''refresh''
      \<longrightarrow> jwt_decode ev t = Some payload
          \<and> (\<exists>uid. get_user_id_by_token c t now = (Some uid, c1) \<and> uid \<noteq> 0
                 \<and> py_int ev (last (py_split 58 (py_get (sub payload) (ascii '':'')))) = Some uid))
   \<and> ((case (jwt_decode ev t, fst (get_user_id_by_token c t now)) of
         (Some payload, Some uid) \<Rightarrow>
           py_int ev (last (py_split 58 (py_get (sub payload) (ascii '':'')))) \<noteq> Some uid
       | _ \<Rightarrow> True)
      \<longrightarrow> fst (refresh_token ev c t now now_access) = result_error ''Invalid refresh token'' 400)"
proof (intro conjI impI)
  assume "map_of (refresh_tokens c) P = Some e \<and> rt_refresh_token e = t \<and> py_in t (token_lookup c)"
  then obtain c' where d: "delete_token c P = Inr (True, c')" and l: "map_of (token_lookup c') t = None"
    using delete_token_held by blast
  have "fst (get_user_id_by_token c' t now) = None"
    using l by (simp add: get_user_id_by_token_def)
  moreover have "\<forall>payload c''. verify_token ev c' t now = Inr (Some payload, c'')
                       \<longrightarrow> type payload \<noteq> Some ''refresh''"
    using verify_token_unknown [OF l] by blast
  moreover have "refresh_token ev c' t now now_access = (result_error ''Invalid refresh token'' 400, c')"
    using l by (rule refresh_token_unknown)
  ultimately show "\<exists>c'. delete_token c P = Inr (True, c')
                \<and> fst (get_user_id_by_token c' t now) = None
                \<and> (\<forall>payload c''. verify_token ev c' t now = Inr (Some payload, c'')
                       \<longrightarrow> type payload \<noteq> Some ''refresh'')
                \<and> refresh_token ev c' t now now_access
                    = (result_error ''Invalid refresh token'' 400, c')"
    using d by blast
next
  assume a: "verify_token ev c t now = Inr (Some payload, c1) \<and> type payload = Some ''refresh''"
  from verify_token_Some [OF conjunct1 [OF a] conjunct2 [OF a]]
  show "jwt_decode ev t = Some payload"
    and "\<exists>uid. get_user_id_by_token c t now = (Some uid, c1) \<and> uid \<noteq> 0
                 \<and> py_int ev (last (py_split 58 (py_get (sub payload) (ascii '':'')))) = Some uid"
    by simp_all
next
  show "fst (refresh_token ev c t now now_access) = result_error ''Invalid refresh token'' 400"
    by (rule refresh_token_rejects)
qed

theorem revocation_precedence_witness:
  "(map_of (refresh_tokens demo_cache) 7
       = Some \<lparr>rt_refresh_token = ''refresh:7'', rt_expires_at = 1000, rt_created_at = 0\<rparr>
    \<and> py_in ''refresh:7'' (token_lookup demo_cache)
    \<and> (\<exists>c'. delete_token demo_cache 7 = Inr (True, c')
          \<and> fst (get_user_id_by_token c' ''refresh:7'' 10) = None
          \<and> refresh_token (demo_env (\<lambda>t. Some (demo_refresh_claims 7)) (Some (demo_user 7 ''admin'')))
               c' ''refresh:7'' 10 10
             = (result_error ''Invalid refresh token'' 400, c')))
   \<and> (verify_token (demo_env (\<lambda>t. Some (demo_refresh_claims 7)) (Some (demo_user 7 ''admin'')))
          demo_cache ''refresh:7'' 10
        = Inr (Some (demo_refresh_claims 7), demo_cache)
      \<and> type (demo_refresh_claims 7) = Some ''refresh''
      \<and> (\<exists>uid. get_user_id_by_token demo_cache ''refresh:7'' 10 = (Some uid, demo_cache) \<and> uid \<noteq> 0
             \<and> py_int (demo_env (\<lambda>t. Some (demo_refresh_claims 7)) (Some (demo_user 7 ''admin'')))
                  (last (py_split 58 (py_get (sub (demo_refresh_claims 7)) (ascii '':''))))
                = Some uid))
   \<and> ((case (jwt_decode (demo_env (\<lambda>t. Some (demo_refresh_claims 7)) (Some (demo_user 7 ''admin'')))
                 ''refresh:7'',
               fst (get_user_id_by_token init_cache ''refresh:7'' 10)) of
         (Some payload, Some uid) \<Rightarrow>
           py_int (demo_env (\<lambda>t. Some (demo_refresh_claims 7)) (Some (demo_user 7 ''admin'')))
             (last (py_split 58 (py_get (sub payload) (ascii '':'')))) \<noteq> Some uid
       | _ \<Rightarrow> True)
      \<and> fst (refresh_token (demo_env (\<lambda>t. Some (demo_refresh_claims 7)) (Some (demo_user 7 ''admin'')))
               init_cache ''refresh:7'' 10 10)
          = result_error ''Invalid refresh token'' 400)"
proof -
  let ?ev = "demo_env (\<lambda>t. Some (demo_refresh_claims 7)) (Some (demo_user 7 ''admin''))"
  let ?e = "\<lparr>rt_refresh_token = ''refresh:7'', rt_expires_at = 1000, rt_created_at = 0\<rparr>"
  have h1: "map_of (refresh_tokens demo_cache) 7 = Some ?e"
    and h2: "rt_refresh_token ?e = ''refresh:7''"
    and h3: "py_in ''refresh:7'' (token_lookup demo_cache)"
    by (simp_all add: demo_cache_def py_in_def)
  have v: "verify_token ?ev demo_cache ''refresh:7'' 10 = Inr (Some (demo_refresh_claims 7), demo_cache)"
    by (simp add: api_eval py_eval digits_of_small demo_cache_def get_user_id_by_token_def)
  have ty: "type (demo_refresh_claims 7) = Some ''refresh''"
    by (simp add: demo_refresh_claims_def)
  have u: "case (jwt_decode ?ev ''refresh:7'', fst (get_user_id_by_token init_cache ''refresh:7'' 10)) of
         (Some payload, Some uid) \<Rightarrow>
           py_int ?ev (last (py_split 58 (py_get (sub payload) (ascii '':'')))) \<noteq> Some uid
       | _ \<Rightarrow> True"
    by (simp add: get_user_id_by_token_def init_cache_def demo_env_def)
  note R1 = revocation_precedence [where c = demo_cache and P = 7 and e = ?e and t = "''refresh:7''"
      and ev = ?ev and now = 10 and now_access = 10,
      THEN conjunct1, rule_format, OF conjI [OF h1 conjI [OF h2 h3]]]
  note R2 = revocation_precedence [where c = demo_cache and t = "''refresh:7''" and ev = ?ev
      and now = 10 and payload = "demo_refresh_claims 7" and ?c1.0 = demo_cache,
      THEN conjunct2, THEN conjunct1, rule_format, OF conjI [OF v ty], THEN conjunct2]
  note R3 = revocation_precedence [where c = init_cache and t = "''refresh:7''" and ev = ?ev
      and now = 10 and now_access = 10,
      THEN conjunct2, THEN conjunct2, THEN mp, OF u]
  have r1: "\<exists>c'. delete_token demo_cache 7 = Inr (True, c')
          \<and> fst (get_user_id_by_token c' ''refresh:7'' 10) = None
          \<and> refresh_token ?ev c' ''refresh:7'' 10 10 = (result_error ''Invalid refresh token'' 400, c')"
    using R1 by (elim exE conjE) (intro exI conjI, assumption+)
  show ?thesis
    by (intro conjI) (rule h1 h3 r1 v ty R2 u R3)+
qed

text \<open>
  Claim C5 (scope derivation and inheritance) fails on the code. The statements that
  derive the scopes are those of \<open>role_scopes\<close>, but \<^verbatim>\<open>login\<close> never reaches them: its
  query reads \<^verbatim>\<open>models.User.is_active\<close>, which the class does not have, and raises
  \<^verbatim>\<open>AttributeError\<close>. \<^verbatim>\<open>get_current_user\<close> reads \<^verbatim>\<open>models.User.id\<close> in its query and
  raises \<^verbatim>\<open>AttributeError\<close> as well: for the access token of an admin, whatever scope is
  required, and for that of a plain user, where the claim expects the 403 for admin and
  manager and the user for user. \<^verbatim>\<open>refresh_token\<close> turns the same exception into the
  error result.
\<close>

theorem scope_inheritance_raises_attribute_error:
  "set (role_scopes ''admin'') = {''admin'', ''manager'', ''user''}
   \<and> set (role_scopes ''manager'') = {''manager'', ''user''}
   \<and> role_scopes ''user'' = [''user'']
   \<and> access_claims (no_claims\<lparr>sub := Some (ascii ''user:'' @ digits_of (nat (user_id (demo_user 7 ''admin''))))\<rparr>)
        (Some (timedelta_minutes 30)) (Some (role_scopes (user_role (demo_user 7 ''admin'')))) 0
      = Inr (demo_access_claims (demo_user 7 ''admin''))
   \<and> login (demo_env (\<lambda>t. None) (Some (demo_user 7 ''admin''))) init_cache ''alice'' ''secret'' 0 0 0 0
      = Inl AttributeError
   \<and> get_current_user
        (demo_env (\<lambda>t. Some (demo_access_claims (demo_user 7 ''admin''))) (Some (demo_user 7 ''admin'')))
        [''admin''] ''access-token'' = Inl AttributeError
   \<and> get_current_user
        (demo_env (\<lambda>t. Some (demo_access_claims (demo_user 7 ''admin''))) (Some (demo_user 7 ''admin'')))
        [''manager''] ''access-token'' = Inl AttributeError
   \<and> get_current_user
        (demo_env (\<lambda>t. Some (demo_access_claims (demo_user 7 ''admin''))) (Some (demo_user 7 ''admin'')))
        [''user''] ''access-token'' = Inl AttributeError
   \<and> get_current_user
        (demo_env (\<lambda>t. Some (demo_access_claims (demo_user 8 ''user''))) (Some (demo_user 8 ''user'')))
        [''admin''] ''access-token'' = Inl AttributeError
   \<and> get_current_user
        (demo_env (\<lambda>t. Some (demo_access_claims (demo_user 8 ''user''))) (Some (demo_user 8 ''user'')))
        [''manager''] ''access-token'' = Inl AttributeError
   \<and> get_current_user
        (demo_env (\<lambda>t. Some (demo_access_claims (demo_user 8 ''user''))) (Some (demo_user 8 ''user'')))
        [''user''] ''access-token'' = Inl AttributeError
   \<and> refresh_token
        (demo_env (\<lambda>t. Some (demo_refresh_claims 7)) (Some (demo_user 7 ''admin'')))
        demo_cache ''refresh:7'' 10 10
      = (result_error ''Invalid refresh token'' 400, demo_cache)"
proof -
  have g: "get_current_user (demo_env (\<lambda>t. Some (demo_access_claims (demo_user uid role)))
                (Some (demo_user uid role))) required ''access-token'' = Inl AttributeError"
    if "0 < uid" "uid < 10" for uid role required
    using that by (simp add: api_eval py_eval digits_of_small)
  have r: "refresh_token (demo_env (\<lambda>t. Some (demo_refresh_claims 7)) (Some (demo_user 7 ''admin'')))
        demo_cache ''refresh:7'' 10 10 = (result_error ''Invalid refresh token'' 400, demo_cache)"
    by (simp add: api_eval py_eval digits_of_small demo_cache_def get_user_id_by_token_def)
  have s: "role_scopes ''user'' = [''user'']"
    by (simp add: role_scopes_def)
  have g7: "(0::int) < 7" "(7::int) < 10" and g8: "(0::int) < 8" "(8::int) < 10"
    by simp_all
  show ?thesis
    by (intro conjI)
       (rule role_scopes_sets s demo_access_claims_minted login_raises g [OF g7] g [OF g8] r)+
qed

text \<open>
  Claim C6 (rejections of \<^verbatim>\<open>get_current_user\<close>), as amended. A token the codec rejects
  raises the 401 \<^verbatim>\<open>Could not validate credentials\<close>, and so does a decoded token whose
  subject carries the id 0. A decoded token whose subject carries another id and whose
  \<^verbatim>\<open>type\<close> claim is not \<^verbatim>\<open>access\<close> raises the 403 \<^verbatim>\<open>Invalid token type\<close>.
\<close>

theorem authorize_rejections:
  "(jwt_decode ev token = None
      \<longrightarrow> get_current_user ev security_scopes token
            = Inl (HTTPException 401 ''Could not validate credentials''
                     (authenticate_value security_scopes)))
   \<and> (jwt_decode ev token = Some payload
      \<and> py_int ev (last (py_split 58 (py_get (sub payload) (ascii '''')))) = Some 0
      \<longrightarrow> get_current_user ev security_scopes token
            = Inl (HTTPException 401 ''Could not validate credentials''
                     (authenticate_value security_scopes)))
   \<and> (jwt_decode ev token = Some payload
      \<and> py_int ev (last (py_split 58 (py_get (sub payload) (ascii '''')))) = Some uid \<and> uid \<noteq> 0
      \<and> type payload = Some ty \<and> ty \<noteq> ''access''
      \<longrightarrow> get_current_user ev security_scopes token
            = Inl (HTTPException 403 ''Invalid token type'' (authenticate_value security_scopes)))"
  by (simp add: get_current_user_def credentials_exception_def py_get_def)

theorem authorize_rejections_witness:
  "jwt_decode (demo_env (\<lambda>t. None) None) ''garbage'' = None
   \<and> get_current_user (demo_env (\<lambda>t. None) None) [''user''] ''garbage''
       = Inl (HTTPException 401 ''Could not validate credentials'' (authenticate_value [''user'']))
   \<and> jwt_decode (demo_env (\<lambda>t. Some (demo_refresh_claims 0)) None) ''refresh:0''
       = Some (demo_refresh_claims 0)
   \<and> py_int (demo_env (\<lambda>t. Some (demo_refresh_claims 0)) None)
        (last (py_split 58 (py_get (sub (demo_refresh_claims 0)) (ascii '''')))) = Some 0
   \<and> get_current_user (demo_env (\<lambda>t. Some (demo_refresh_claims 0)) None) [''user''] ''refresh:0''
       = Inl (HTTPException 401 ''Could not validate credentials'' (authenticate_value [''user'']))
   \<and> jwt_decode (demo_env (\<lambda>t. Some (demo_refresh_claims 7)) None) ''refresh:7''
       = Some (demo_refresh_claims 7)
   \<and> py_int (demo_env (\<lambda>t. Some (demo_refresh_claims 7)) None)
        (last (py_split 58 (py_get (sub (demo_refresh_claims 7)) (ascii '''')))) = Some 7
   \<and> (7::int) \<noteq> 0
   \<and> type (demo_refresh_claims 7) = Some ''refresh'' \<and> ''refresh'' \<noteq> ''access''
   \<and> get_current_user (demo_env (\<lambda>t. Some (demo_refresh_claims 7)) None) [''user''] ''refresh:7''
       = Inl (HTTPException 403 ''Invalid token type'' (authenticate_value [''user'']))"
proof -
  let ?e0 = "demo_env (\<lambda>t. Some (demo_refresh_claims 0)) None"
  let ?e7 = "demo_env (\<lambda>t. Some (demo_refresh_claims 7)) None"
  have s0: "py_int ?e0 (last (py_split 58 (py_get (sub (demo_refresh_claims 0)) (ascii '''')))) = Some 0"
    and s7: "py_int ?e7 (last (py_split 58 (py_get (sub (demo_refresh_claims 7)) (ascii '''')))) = Some 7"
    by (simp_all add: py_eval digits_of_small demo_refresh_claims_def demo_env_def)
  have d: "jwt_decode (demo_env (\<lambda>t. None) None) ''garbage'' = None"
    and d0: "jwt_decode ?e0 ''refresh:0'' = Some (demo_refresh_claims 0)"
    and d7: "jwt_decode ?e7 ''refresh:7'' = Some (demo_refresh_claims 7)"
    and ty: "type (demo_refresh_claims 7) = Some ''refresh''" and ne: "''refresh'' \<noteq> ''access''"
    and n7: "(7::int) \<noteq> 0"
    by (simp_all add: demo_env_def demo_refresh_claims_def)
  note A1 = authorize_rejections [where ev = "demo_env (\<lambda>t. None) None" and token = "''garbage''"
      and security_scopes = "[''user'']", THEN conjunct1, rule_format, OF d]
  note A2 = authorize_rejections [where ev = ?e0 and token = "''refresh:0''"
      and security_scopes = "[''user'']" and payload = "demo_refresh_claims 0",
      THEN conjunct2, THEN conjunct1, rule_format, OF conjI [OF d0 s0]]
  note A3 = authorize_rejections [where ev = ?e7 and token = "''refresh:7''"
      and security_scopes = "[''user'']" and payload = "demo_refresh_claims 7" and uid = 7
      and ty = "''refresh''",
      THEN conjunct2, THEN conjunct2, rule_format,
      OF conjI [OF d7 conjI [OF s7 conjI [OF n7 conjI [OF ty ne]]]]]
  show ?thesis
    by (intro conjI) (rule d A1 d0 s0 A2 d7 s7 n7 ty ne A3)+
qed

text \<open>
  The claim as stated promises a 401 for a refresh token presented as an access token; the
  refresh token that \<^verbatim>\<open>create_refresh_token\<close> mints for user 7 gets the 403.
\<close>

theorem refresh_token_as_access_counterexample:
  "refresh_claims (demo_env (\<lambda>t. Some (demo_refresh_claims 7)) (Some (demo_user 7 ''admin''))) 7 None 0
     = Inr (demo_refresh_claims 7)
   \<and> get_current_user (demo_env (\<lambda>t. Some (demo_refresh_claims 7)) (Some (demo_user 7 ''admin'')))
       [] ''refresh-token''
     = Inl (HTTPException 403 ''Invalid token type'' ''Bearer'')"
  by (simp add: demo_refresh_claims_minted)
     (simp add: api_eval py_eval digits_of_small)

text \<open>
  Claim C8 (total error propagation) fails for \<^verbatim>\<open>get_current_user\<close>: for a validly signed
  token whose subject claim is absent, empty or has a non-numeric suffix, \<^verbatim>\<open>int\<close> raises
  \<^verbatim>\<open>ValueError\<close>, which the \<^verbatim>\<open>except (JWTError, ValidationError)\<close> clause does not catch.
  (\<^verbatim>\<open>refresh_token\<close> catches every exception and always returns a result.)
\<close>

theorem get_current_user_raises_value_error:
  "get_current_user (demo_env (\<lambda>t. Some (no_claims\<lparr>scopes := Some [''user'']\<rparr>)) (Some (demo_user 7 ''user'')))
     [''user''] ''signed''
   = Inl ValueError
   \<and> get_current_user
       (demo_env (\<lambda>t. Some (no_claims\<lparr>sub := Some (ascii ''''), scopes := Some [''user'']\<rparr>))
          (Some (demo_user 7 ''user'')))
       [''user''] ''signed''
     = Inl ValueError
   \<and> get_current_user
       (demo_env (\<lambda>t. Some (no_claims\<lparr>sub := Some (ascii ''user:abc''), scopes := Some [''user'']\<rparr>))
          (Some (demo_user 7 ''user'')))
       [''user''] ''signed''
     = Inl ValueError"
  by (simp add: api_eval py_eval)



text \<open>
  Claim C10 (principal id 0). A refresh token that decodes as such and is the current,
  unexpired cache entry of user 0 is rejected: \<^verbatim>\<open>get_user_id_by_token\<close> returns 0,
  \<^verbatim>\<open>verify_token\<close> reads it as falsy and returns \<^verbatim>\<open>None\<close>, and \<^verbatim>\<open>refresh_token\<close> gives
  the error result \<^verbatim>\<open>Invalid refresh token\<close>. No token whose subject carries the id 0 ever
  makes \<^verbatim>\<open>refresh_token\<close> succeed.
\<close>

theorem principal_zero_never_refreshes:
  "(jwt_decode ev t = Some payload \<and> type payload = Some ''refresh''
      \<and> map_of (token_lookup c) t = Some \<lparr>tl_user_id = 0, tl_expires_at = e\<rparr> \<and> now \<le> e
      \<longrightarrow> fst (get_user_id_by_token c t now) = Some 0
          \<and> verify_token ev c t now = Inr (None, c)
          \<and> refresh_token ev c t now now_access = (result_error ''Invalid refresh token'' 400, c))
   \<and> (jwt_decode ev t = Some payload
      \<and> py_int ev (last (py_split 58 (py_get (sub payload) (ascii '':'')))) = Some 0
      \<longrightarrow> \<not> isSuccess (fst (refresh_token ev c t now now_access)))"
proof (intro conjI impI)
  assume a: "jwt_decode ev t = Some payload \<and> type payload = Some ''refresh''
      \<and> map_of (token_lookup c) t = Some \<lparr>tl_user_id = 0, tl_expires_at = e\<rparr> \<and> now \<le> e"
  then have g: "get_user_id_by_token c t now = (Some 0, c)"
    by (simp add: get_user_id_by_token_def)
  then show "fst (get_user_id_by_token c t now) = Some 0" by simp
  show v: "verify_token ev c t now = Inr (None, c)"
    using a g by (simp add: verify_token_def)
  show "refresh_token ev c t now now_access = (result_error ''Invalid refresh token'' 400, c)"
    using v by (simp add: refresh_token_def)
next
  assume a: "jwt_decode ev t = Some payload
      \<and> py_int ev (last (py_split 58 (py_get (sub payload) (ascii '':'')))) = Some 0"
  show "\<not> isSuccess (fst (refresh_token ev c t now now_access))"
  proof
    assume "isSuccess (fst (refresh_token ev c t now now_access))"
    then have "\<exists>c'. verify_token ev c t now = Inr (Some payload, c') \<and> type payload = Some ''refresh''"
      using a
      by (auto simp: refresh_token_def result_error_def verify_token_def
          split: sum.splits prod.splits option.splits if_splits)
    then obtain c' where "verify_token ev c t now = Inr (Some payload, c')"
        "type payload = Some ''refresh''" by blast
    from verify_token_Some [OF this] a show False by auto
  qed
qed

theorem principal_zero_never_refreshes_witness:
  "jwt_decode (demo_env (\<lambda>t. Some (demo_refresh_claims 0)) (Some (demo_user 0 ''admin'')))
      ''refresh:0'' = Some (demo_refresh_claims 0)
   \<and> type (demo_refresh_claims 0) = Some ''refresh''
   \<and> map_of (token_lookup zero_cache) ''refresh:0'' = Some \<lparr>tl_user_id = 0, tl_expires_at = 1000\<rparr>
   \<and> (10::int) \<le> 1000
   \<and> py_int (demo_env (\<lambda>t. Some (demo_refresh_claims 0)) (Some (demo_user 0 ''admin'')))
        (last (py_split 58 (py_get (sub (demo_refresh_claims 0)) (ascii '':'')))) = Some 0
   \<and> fst (get_user_id_by_token zero_cache ''refresh:0'' 10) = Some 0
   \<and> verify_token (demo_env (\<lambda>t. Some (demo_refresh_claims 0)) (Some (demo_user 0 ''admin'')))
        zero_cache ''refresh:0'' 10 = Inr (None, zero_cache)
   \<and> refresh_token (demo_env (\<lambda>t. Some (demo_refresh_claims 0)) (Some (demo_user 0 ''admin'')))
        zero_cache ''refresh:0'' 10 10 = (result_error ''Invalid refresh token'' 400, zero_cache)
   \<and> \<not> isSuccess (fst (refresh_token
        (demo_env (\<lambda>t. Some (demo_refresh_claims 0)) (Some (demo_user 0 ''admin'')))
        zero_cache ''refresh:0'' 10 10))"
proof -
  let ?ev = "demo_env (\<lambda>t. Some (demo_refresh_claims 0)) (Some (demo_user 0 ''admin''))"
  have h: "jwt_decode ?ev ''refresh:0'' = Some (demo_refresh_claims 0)
      \<and> type (demo_refresh_claims 0) = Some ''refresh''
      \<and> map_of (token_lookup zero_cache) ''refresh:0'' = Some \<lparr>tl_user_id = 0, tl_expires_at = 1000\<rparr>
      \<and> (10::int) \<le> 1000"
    by (simp add: demo_env_def demo_refresh_claims_def zero_cache_def)
  have s: "py_int ?ev (last (py_split 58 (py_get (sub (demo_refresh_claims 0)) (ascii '':'')))) = Some 0"
    by (simp add: py_eval digits_of_small demo_refresh_claims_def demo_env_def)
  from principal_zero_never_refreshes [of ?ev "''refresh:0''" "demo_refresh_claims 0" zero_cache
      1000 10 10] h s
  show ?thesis by blast
qed

end
